theory Spec2Isabelle
  imports Complex_Main "HOL-Library.Multiset"
begin

section \<open>Data model\<close>

text \<open>
  The Django models of \<^verbatim>\<open>service_catalog/models.py\<close>, \<^verbatim>\<open>calendar_mgmt/models.py\<close> and
  \<^verbatim>\<open>customer/models.py\<close>, restricted to the columns the booking engine reads or writes.
  Primary keys (UUIDs) are natural numbers, instants are integers (microseconds on the
  time line, the resolution of a Python datetime), Decimal amounts are rationals.
  A table is the list of its rows. The services and the lines are listed in
  primary-key order, which is the order \<^verbatim>\<open>.first()\<close> uses on an unordered queryset; the
  lines have an auto-incremented key, so a new line comes last. The order of the
  bookings in their list plays no part: an iteration over bookings meets them in the
  order the database chooses.
\<close>

datatype availability_type = Unlimited | Limited | Unique

datatype booking_status = Pending | Confirmed | In_progress | Completed | Cancelled | No_show

datatype conflict_type = Service_overlap | Time_conflict | Availability_limit | Business_hours

datatype severity = Low | Medium | High | Critical

datatype resolution_status = Detected | Resolved | Ignored | Escalated

record service =
  s_id :: nat
  s_user_id :: nat
  s_name :: string
  s_is_active :: bool
  base_price :: rat
  price_per_hour :: "rat option"
  price_per_day :: "rat option"
  price_per_week :: "rat option"
  availability_type :: availability_type
  quantity_available :: int

record booking =
  b_id :: nat
  b_user_id :: nat
  b_customer :: nat
  b_title :: string
  start_time :: int
  end_time :: int
  status :: booking_status
  ai_confidence_score :: "rat option"

record booking_service =
  bs_booking :: nat
  bs_service :: nat
  quantity :: int
  price_per_unit :: rat
  total_price :: rat

record calendar_settings =
  cs_user_id :: nat
  business_hours_start :: int
  business_hours_end :: int
  ai_booking_auto_confirm :: bool
  ai_confidence_threshold :: rat

record conflict_log =
  cl_user_id :: nat
  cl_conflict_type :: conflict_type
  cl_primary_booking :: nat
  cl_severity :: severity
  cl_resolution_status :: resolution_status

record customer =
  c_id :: nat
  c_user_id :: nat
  c_email :: string

record db =
  service_objects :: "service list"
  booking_objects :: "booking list"
  booking_service_objects :: "booking_service list"
  calendar_settings_objects :: "calendar_settings list"
  conflict_log_objects :: "conflict_log list"
  customer_objects :: "customer list"

text \<open>
  Exceptions the modelled code can raise. \<open>IntegrityError\<close> is the only database error among
  them: Django marks the open transaction for rollback when a save fails with it.
\<close>

datatype exn = TypeError | AttributeError | ValueError | IntegrityError
  | MultipleObjectsReturned | ChannelError

text \<open>A conflict dictionary as \<^verbatim>\<open>detect_conflicts\<close> builds it (messages and suggestions left out).\<close>

record conflict =
  cf_type :: conflict_type
  cf_severity :: severity
  cf_service_id :: "nat option"
  cf_conflicting :: "nat list"

section \<open>Duration-based pricing: Service.get_price_for_duration\<close>

text \<open>
  \<^verbatim>\<open>if self.price_per_hour\<close> is Python truthiness: a rate that is \<^verbatim>\<open>None\<close> or zero does not count.
\<close>

definition truthy :: "rat option \<Rightarrow> bool" where
  "truthy r = (case r of None \<Rightarrow> False | Some v \<Rightarrow> v \<noteq> 0)"

definition amount :: "rat option \<Rightarrow> rat" where
  "amount r = (case r of None \<Rightarrow> 0 | Some v \<Rightarrow> v)"

text \<open>Python's \<^verbatim>\<open>//\<close> and \<^verbatim>\<open>%\<close> on the rationals that floats denote.\<close>

definition floordiv :: "rat \<Rightarrow> rat \<Rightarrow> rat" where
  "floordiv x m = of_int \<lfloor>x / m\<rfloor>"

definition pymod :: "rat \<Rightarrow> rat \<Rightarrow> rat" where
  "pymod x m = x - m * of_int \<lfloor>x / m\<rfloor>"

lemma pymod_168_bounds: "0 \<le> pymod x 168 \<and> pymod x 168 < 168"
proof -
  have a: "of_int \<lfloor>x / 168\<rfloor> \<le> x / 168" by linarith
  have b: "x / 168 < of_int \<lfloor>x / 168\<rfloor> + 1" by linarith
  from a b show ?thesis unfolding pymod_def by (simp add: field_simps)
qed

text \<open>
  The duration the method receives is a Python number: an int, or a float, which is what
  its caller calculate_service_price passes (\<^verbatim>\<open>duration.total_seconds() / 3600\<close>). A float
  is held as the rational it denotes. The rates are Decimal (DecimalField), and Decimal
  refuses arithmetic with a float: the product of a float and a rate raises TypeError,
  the product of an int and a rate is a Decimal.
\<close>

datatype number = PyInt int | PyFloat rat

definition number_value :: "number \<Rightarrow> rat" where
  "number_value n = (case n of PyInt i \<Rightarrow> of_int i | PyFloat x \<Rightarrow> x)"

definition times_decimal :: "number \<Rightarrow> rat \<Rightarrow> exn + rat" where
  "times_decimal n r = (case n of PyInt i \<Rightarrow> Inr (of_int i * r) | PyFloat x \<Rightarrow> Inl TypeError)"

text \<open>
  \<^verbatim>\<open>n // m\<close> and \<^verbatim>\<open>n % m\<close> for an int \<open>m\<close>: an int for an int, a float for a float.
\<close>

definition number_floordiv :: "number \<Rightarrow> int \<Rightarrow> number" where
  "number_floordiv n m =
     (case n of PyInt i \<Rightarrow> PyInt (i div m) | PyFloat x \<Rightarrow> PyFloat (floordiv x (of_int m)))"

definition number_mod :: "number \<Rightarrow> int \<Rightarrow> number" where
  "number_mod n m =
     (case n of PyInt i \<Rightarrow> PyInt (i mod m) | PyFloat x \<Rightarrow> PyFloat (pymod x (of_int m)))"

text \<open>\<^verbatim>\<open>max(1, n)\<close> returns its first argument, the int 1, unless \<open>n\<close> is greater.\<close>

definition max_one :: "number \<Rightarrow> number" where
  "max_one n = (if number_value n > 1 then n else PyInt 1)"

lemma number_mod_168_bounds:
  "0 \<le> number_value (number_mod h 168) \<and> number_value (number_mod h 168) < 168"
proof (cases h)
  case (PyInt i)
  then show ?thesis by (simp add: number_mod_def number_value_def)
next
  case (PyFloat x)
  then show ?thesis using pymod_168_bounds[of x] by (simp add: number_mod_def number_value_def)
qed

text \<open>
  The method. The recursive call is on the remainder of the division by 168, which is
  below 168, so it recurses at most once; in \<^verbatim>\<open>(weeks * self.price_per_week) + ...\<close> the
  product is evaluated first.
\<close>

function get_price_for_duration :: "service \<Rightarrow> number \<Rightarrow> exn + rat" where
  "get_price_for_duration s h =
    (if number_value h \<le> 1 \<and> truthy (price_per_hour s) then Inr (amount (price_per_hour s))
     else if number_value h \<le> 24 \<and> truthy (price_per_day s) then Inr (amount (price_per_day s))
     else if number_value h \<le> 168 \<and> truthy (price_per_week s) then Inr (amount (price_per_week s))
     else if truthy (price_per_week s) \<and> number_value h > 168 then
       (case times_decimal (number_floordiv h 168) (amount (price_per_week s)) of
          Inl x \<Rightarrow> Inl x
        | Inr a \<Rightarrow>
            (case get_price_for_duration s (number_mod h 168) of
               Inl x \<Rightarrow> Inl x
             | Inr b \<Rightarrow> Inr (a + b)))
     else if truthy (price_per_day s) then
       times_decimal (max_one (number_floordiv h 24)) (amount (price_per_day s))
     else if truthy (price_per_hour s) then times_decimal h (amount (price_per_hour s))
     else Inr (base_price s))"
  by pat_completeness auto
termination
proof (relation "measure (\<lambda>(s, h). if number_value h > 168 then 1 else 0)")
  show "wf (measure (\<lambda>(s::service, h::number). if number_value h > 168 then 1 else 0))"
    by simp
next
  fix s :: service and h :: number and a :: rat
  assume "truthy (price_per_week s) \<and> 168 < number_value h"
  moreover have "\<not> number_value (number_mod h 168) > 168"
    using number_mod_168_bounds[of h] by simp
  ultimately show "((s, number_mod h 168), (s, h))
      \<in> measure (\<lambda>(s, h). if number_value h > 168 then 1 else 0)"
    by simp
qed

declare get_price_for_duration.simps [simp del]

text \<open>
  The price in exact arithmetic, for the proofs: the value the method computes from
  the number a duration denotes, wherever no product raises.
\<close>

function exact_price :: "service \<Rightarrow> rat \<Rightarrow> rat" where
  "exact_price s h =
    (if h \<le> 1 \<and> truthy (price_per_hour s) then amount (price_per_hour s)
     else if h \<le> 24 \<and> truthy (price_per_day s) then amount (price_per_day s)
     else if h \<le> 168 \<and> truthy (price_per_week s) then amount (price_per_week s)
     else if truthy (price_per_week s) \<and> h > 168 then
       floordiv h 168 * amount (price_per_week s) + exact_price s (pymod h 168)
     else if truthy (price_per_day s) then max 1 (floordiv h 24) * amount (price_per_day s)
     else if truthy (price_per_hour s) then h * amount (price_per_hour s)
     else base_price s)"
  by pat_completeness auto
termination
proof (relation "measure (\<lambda>(s, h). if h > 168 then 1 else 0)")
  show "wf (measure (\<lambda>(s::service, h::rat). if h > 168 then 1 else 0))" by simp
next
  fix s :: service and h :: rat
  assume "truthy (price_per_week s) \<and> 168 < h"
  moreover have "\<not> pymod h 168 > 168" using pymod_168_bounds[of h] by simp
  ultimately show "((s, pymod h 168), (s, h)) \<in> measure (\<lambda>(s, h). if h > 168 then 1 else 0)"
    by simp
qed

declare exact_price.simps [simp del]

text \<open>The non-recursive part of the method: what it returns when the weekly branch is not taken.\<close>

definition tier_price :: "service \<Rightarrow> rat \<Rightarrow> rat" where
  "tier_price s h =
    (if h \<le> 1 \<and> truthy (price_per_hour s) then amount (price_per_hour s)
     else if h \<le> 24 \<and> truthy (price_per_day s) then amount (price_per_day s)
     else if h \<le> 168 \<and> truthy (price_per_week s) then amount (price_per_week s)
     else if truthy (price_per_day s) then max 1 (floordiv h 24) * amount (price_per_day s)
     else if truthy (price_per_hour s) then h * amount (price_per_hour s)
     else base_price s)"

text \<open>
  A rate card is consistent when the rates that are set are not negative and a longer
  period never costs less than a shorter one.
\<close>

definition rates_consistent :: "service \<Rightarrow> bool" where
  "rates_consistent s =
    (0 \<le> amount (price_per_hour s) \<and> 0 \<le> amount (price_per_day s) \<and>
     0 \<le> amount (price_per_week s) \<and>
     (truthy (price_per_hour s) \<and> truthy (price_per_day s) \<longrightarrow>
        amount (price_per_hour s) \<le> amount (price_per_day s)) \<and>
     (truthy (price_per_day s) \<and> truthy (price_per_week s) \<longrightarrow>
        amount (price_per_day s) \<le> amount (price_per_week s)) \<and>
     (truthy (price_per_hour s) \<and> truthy (price_per_week s) \<longrightarrow>
        amount (price_per_hour s) \<le> amount (price_per_week s)))"

text \<open>Rate cards used as concrete inputs: only the prices differ.\<close>

definition rate_card :: "rat \<Rightarrow> rat option \<Rightarrow> rat option \<Rightarrow> rat option \<Rightarrow> service" where
  "rate_card b h d w =
    \<lparr>s_id = 1, s_user_id = 7, s_name = ''tent'', s_is_active = True, base_price = b,
     price_per_hour = h, price_per_day = d, price_per_week = w,
     availability_type = Limited, quantity_available = 1\<rparr>"

text \<open>
  The float durations at which the method multiplies no rate by a float: up to one week
  when a weekly rate is set, else below two days when a daily rate is set, else up to one
  hour when an hourly rate is set, else all of them.
\<close>

definition float_priced :: "service \<Rightarrow> rat \<Rightarrow> bool" where
  "float_priced s x =
     (if truthy (price_per_week s) then x \<le> 168
      else if truthy (price_per_day s) then x < 48
      else if truthy (price_per_hour s) then x \<le> 1
      else True)"

section \<open>Datetimes, and what the code reads from outside\<close>

text \<open>
  A Python datetime is offset-naive, a wall-clock reading, or offset-aware, an instant
  together with the UTC offset of its time zone; both count microseconds. Time zone
  support is on (\<^verbatim>\<open>USE_TZ\<close>, which the use of \<^verbatim>\<open>timezone.now()\<close> presumes): the database
  holds instants, the datetimes of a row read from it are aware, in UTC, and so is
  \<^verbatim>\<open>timezone.now()\<close>.
\<close>

datatype datetime = Naive int | Aware int int

definition is_aware :: "datetime \<Rightarrow> bool" where
  "is_aware t = (case t of Naive w \<Rightarrow> False | Aware i off \<Rightarrow> True)"

text \<open>The number that orders the datetimes of one kind: the reading, or the instant.\<close>

definition dt_key :: "datetime \<Rightarrow> int" where
  "dt_key t = (case t of Naive w \<Rightarrow> w | Aware i off \<Rightarrow> i)"

text \<open>What the clock on the wall shows: for an aware datetime, the instant moved by its offset.\<close>

definition wall_clock :: "datetime \<Rightarrow> int" where
  "wall_clock t = (case t of Naive w \<Rightarrow> w | Aware i off \<Rightarrow> i + off)"

text \<open>A DateTimeField as Django returns it.\<close>

definition from_db :: "int \<Rightarrow> datetime" where
  "from_db i = Aware i 0"

text \<open>
  Comparing or subtracting a naive and an aware datetime raises TypeError. \<^verbatim>\<open>max\<close> and
  \<^verbatim>\<open>min\<close> return their first argument unless the second is strictly beyond it.
\<close>

definition comparable :: "datetime \<Rightarrow> datetime \<Rightarrow> bool" where
  "comparable a b = (is_aware a = is_aware b)"

definition dt_ge :: "datetime \<Rightarrow> datetime \<Rightarrow> exn + bool" where
  "dt_ge a b = (if comparable a b then Inr (dt_key a \<ge> dt_key b) else Inl TypeError)"

definition dt_max :: "datetime \<Rightarrow> datetime \<Rightarrow> exn + datetime" where
  "dt_max a b =
     (if comparable a b then Inr (if dt_key b > dt_key a then b else a) else Inl TypeError)"

definition dt_min :: "datetime \<Rightarrow> datetime \<Rightarrow> exn + datetime" where
  "dt_min a b =
     (if comparable a b then Inr (if dt_key b < dt_key a then b else a) else Inl TypeError)"

text \<open>
  \<^verbatim>\<open>(end_time - start_time).total_seconds() / 3600\<close>, a float: the hours between two
  datetimes of one kind.
\<close>

definition hours_between :: "datetime \<Rightarrow> datetime \<Rightarrow> rat" where
  "hours_between s e = of_int (dt_key e - dt_key s) / 3600000000"

definition duration_hours :: "datetime \<Rightarrow> datetime \<Rightarrow> exn + rat" where
  "duration_hours s e = (if comparable e s then Inr (hours_between s e) else Inl TypeError)"

text \<open>
  What the code reads from outside the database and its arguments:
  \<^verbatim>\<open>datetime.fromisoformat\<close> (\<open>None\<close> is its \<^verbatim>\<open>ValueError\<close>); the reading of \<^verbatim>\<open>timezone.now()\<close>
  at the moment the start and the end field of a request are parsed; the instant that a
  wall-clock reading has in the default time zone (\<^verbatim>\<open>settings.TIME_ZONE\<close>), which is how
  Django makes a naive datetime aware when it reaches a DateTimeField or a lookup on one;
  the order in which the database returns the rows of a query that has no
  \<^verbatim>\<open>ORDER BY\<close>, given as a rank of the primary keys; the database's \<^verbatim>\<open>name__icontains\<close>
  match; and whether the channel layer raises when an update is sent.
\<close>

record env =
  fromisoformat :: "string \<Rightarrow> datetime option"
  now_at_start :: int
  now_at_end :: int
  make_aware :: "int \<Rightarrow> int"
  row_rank :: "nat \<Rightarrow> nat"
  icontains :: "string \<Rightarrow> string \<Rightarrow> bool"
  group_send_raises :: bool

text \<open>The instant the database compares with, or stores, for a datetime.\<close>

definition instant :: "env \<Rightarrow> datetime \<Rightarrow> int" where
  "instant ev t = (case t of Naive w \<Rightarrow> make_aware ev w | Aware i off \<Rightarrow> i)"

text \<open>
  Iterating an unordered queryset of bookings: its rows, in the order of their rank.
  Every order of the rows is the order of some rank.
\<close>

definition fetch :: "env \<Rightarrow> booking list \<Rightarrow> booking list" where
  "fetch ev rows = sort_key (\<lambda>b. row_rank ev (b_id b)) rows"

text \<open>
  A loop that appends what \<open>f\<close> returns for each element and is left at the first
  exception.
\<close>

fun collect :: "('a \<Rightarrow> exn + 'b) \<Rightarrow> 'a list \<Rightarrow> exn + 'b list" where
  "collect f [] = Inr []"
| "collect f (x # xs) =
     (case f x of
        Inl err \<Rightarrow> Inl err
      | Inr y \<Rightarrow> (case collect f xs of Inl err \<Rightarrow> Inl err | Inr ys \<Rightarrow> Inr (y # ys)))"

section \<open>Queries shared by conflict detection and availability\<close>

text \<open>\<^verbatim>\<open>status__in=['confirmed', 'pending', 'in_progress']\<close>\<close>

definition active_status :: "booking_status \<Rightarrow> bool" where
  "active_status st = (st = Confirmed \<or> st = Pending \<or> st = In_progress)"

text \<open>
  \<^verbatim>\<open>start_time__lt=end_time, end_time__gt=start_time\<close>: the half-open overlap test, on the
  instants of the requested window.
\<close>

definition overlaps :: "booking \<Rightarrow> int \<Rightarrow> int \<Rightarrow> bool" where
  "overlaps b s e = (start_time b < e \<and> end_time b > s)"

text \<open>\<^verbatim>\<open>booking.booking_services.filter(service_id=sid)\<close>: the booking's lines on one service.\<close>

definition lines_of :: "db \<Rightarrow> booking \<Rightarrow> nat \<Rightarrow> booking_service list" where
  "lines_of d b sid =
     filter (\<lambda>bs. bs_booking bs = b_id b \<and> bs_service bs = sid) (booking_service_objects d)"

text \<open>\<^verbatim>\<open>Service.objects.get(id=sid, user_id=u)\<close>; \<open>None\<close> stands for \<^verbatim>\<open>Service.DoesNotExist\<close>.\<close>

definition get_service :: "db \<Rightarrow> nat \<Rightarrow> nat \<Rightarrow> service option" where
  "get_service d sid u = find (\<lambda>sv. s_id sv = sid \<and> s_user_id sv = u) (service_objects d)"

text \<open>\<^verbatim>\<open>CalendarSettings.objects.get(user_id=u)\<close> (the column is unique).\<close>

definition get_settings :: "db \<Rightarrow> nat \<Rightarrow> calendar_settings option" where
  "get_settings d u = find (\<lambda>cs. cs_user_id cs = u) (calendar_settings_objects d)"

text \<open>\<^verbatim>\<open>if exclude_booking_id: ... exclude(id=exclude_booking_id)\<close>\<close>

definition not_excluded :: "nat option \<Rightarrow> booking \<Rightarrow> bool" where
  "not_excluded excl b = (case excl of None \<Rightarrow> True | Some x \<Rightarrow> b_id b \<noteq> x)"

text \<open>
  \<^verbatim>\<open>Booking.objects.filter(user_id=u, booking_services__service_id=sid, start_time__lt=e,
  end_time__gt=s, status__in=[...])\<close>: the inner join with the lines, so a booking
  appears once for each of its lines on the service.
\<close>

definition booking_rows :: "db \<Rightarrow> nat \<Rightarrow> int \<Rightarrow> int \<Rightarrow> nat \<Rightarrow> booking list" where
  "booking_rows d sid s e u =
     concat (map (\<lambda>b. map (\<lambda>bs. b) (lines_of d b sid))
       (filter (\<lambda>b. b_user_id b = u \<and> overlaps b s e \<and> active_status (status b))
          (booking_objects d)))"

text \<open>
  The same query with \<^verbatim>\<open>.distinct()\<close> and the exclusion, as _detect_service_conflicts
  builds it: every matching booking once. (The rows of a queryset are listed as the table
  has them; the order in which an iteration meets them is that of \<open>fetch\<close>.)
\<close>

definition overlapping_bookings ::
  "db \<Rightarrow> nat \<Rightarrow> int \<Rightarrow> int \<Rightarrow> nat \<Rightarrow> nat option \<Rightarrow> booking list" where
  "overlapping_bookings d sid s e u excl =
     filter (\<lambda>b. b_user_id b = u \<and> lines_of d b sid \<noteq> [] \<and> overlaps b s e \<and>
                 active_status (status b) \<and> not_excluded excl b)
       (booking_objects d)"

section \<open>ConflictDetectionService\<close>

text \<open>
  The quantity loop of _detect_service_conflicts:
  \<^verbatim>\<open>booking.booking_services.filter(service_id=service_id).first()\<close>, added when it exists.
  (The lines have an auto-incremented key, so the first line is the first of the table.)
\<close>

definition first_line_quantity :: "db \<Rightarrow> nat \<Rightarrow> booking \<Rightarrow> int" where
  "first_line_quantity d sid b = (case lines_of d b sid of [] \<Rightarrow> 0 | bs # rest \<Rightarrow> quantity bs)"

definition total_quantity_used ::
  "env \<Rightarrow> db \<Rightarrow> nat \<Rightarrow> int \<Rightarrow> int \<Rightarrow> nat \<Rightarrow> nat option \<Rightarrow> int" where
  "total_quantity_used ev d sid s e u excl =
     sum_list (map (first_line_quantity d sid) (fetch ev (overlapping_bookings d sid s e u excl)))"

text \<open>
  The conflict dictionary of one overlapping booking. Its \<^verbatim>\<open>overlap_period\<close> is
  \<^verbatim>\<open>max(start_time, booking.start_time)\<close> and \<^verbatim>\<open>min(end_time, booking.end_time)\<close>, which
  compare the requested times with the aware times of the row; the suggestions compare
  the same datetimes once more and raise nothing further.
\<close>

definition overlap_period :: "datetime \<Rightarrow> datetime \<Rightarrow> booking \<Rightarrow> exn + (datetime \<times> datetime)" where
  "overlap_period st en b =
     (case dt_max st (from_db (start_time b)) of
        Inl err \<Rightarrow> Inl err
      | Inr lo \<Rightarrow>
          (case dt_min en (from_db (end_time b)) of
             Inl err \<Rightarrow> Inl err
           | Inr hi \<Rightarrow> Inr (lo, hi)))"

definition service_overlap_conflict ::
  "nat \<Rightarrow> datetime \<Rightarrow> datetime \<Rightarrow> booking \<Rightarrow> exn + conflict" where
  "service_overlap_conflict sid st en b =
     (case overlap_period st en b of
        Inl err \<Rightarrow> Inl err
      | Inr period \<Rightarrow>
          Inr \<lparr>cf_type = Service_overlap, cf_severity = High, cf_service_id = Some sid,
               cf_conflicting = [b_id b]\<rparr>)"

text \<open>_detect_service_conflicts; the requested quantity is the constant 1 of the source.\<close>

definition detect_service_conflicts ::
  "env \<Rightarrow> db \<Rightarrow> nat \<Rightarrow> datetime \<Rightarrow> datetime \<Rightarrow> nat \<Rightarrow> nat option \<Rightarrow> exn + conflict list" where
  "detect_service_conflicts ev d sid st en u excl =
     (case get_service d sid u of
        None \<Rightarrow> Inr []
      | Some sv \<Rightarrow>
          if availability_type sv = Unlimited then Inr []
          else if total_quantity_used ev d sid (instant ev st) (instant ev en) u excl + 1
                    > quantity_available sv
          then collect (service_overlap_conflict sid st en)
                 (fetch ev (overlapping_bookings d sid (instant ev st) (instant ev en) u excl))
          else Inr [])"

text \<open>
  _detect_business_hours_conflicts. \<^verbatim>\<open>.time()\<close> is the time of day the datetime itself
  shows, in microseconds since midnight; the settings hold the two bounds in the same unit.
\<close>

definition time_of_day :: "datetime \<Rightarrow> int" where
  "time_of_day t = wall_clock t mod 86400000000"

definition detect_business_hours_conflicts ::
  "db \<Rightarrow> datetime \<Rightarrow> datetime \<Rightarrow> nat \<Rightarrow> conflict list" where
  "detect_business_hours_conflicts d st en u =
     (case get_settings d u of
        None \<Rightarrow> []
      | Some cs \<Rightarrow>
          if time_of_day st < business_hours_start cs \<or> time_of_day en > business_hours_end cs
          then [\<lparr>cf_type = Business_hours, cf_severity = Medium, cf_service_id = None,
                 cf_conflicting = []\<rparr>]
          else [])"

text \<open>_detect_availability_conflicts: one service of the loop, then the loop.\<close>

definition unique_item_conflicts ::
  "env \<Rightarrow> db \<Rightarrow> nat \<Rightarrow> datetime \<Rightarrow> datetime \<Rightarrow> nat \<Rightarrow> nat option \<Rightarrow> conflict list" where
  "unique_item_conflicts ev d sid st en u excl =
     (case get_service d sid u of
        None \<Rightarrow> []
      | Some sv \<Rightarrow>
          if availability_type sv = Unique then
            (let existing_bookings =
                   filter (not_excluded excl)
                     (booking_rows d sid (instant ev st) (instant ev en) u)
             in if existing_bookings \<noteq> [] then
                  [\<lparr>cf_type = Availability_limit, cf_severity = Critical,
                    cf_service_id = Some sid,
                    cf_conflicting = map b_id (fetch ev existing_bookings)\<rparr>]
                else [])
          else [])"

definition detect_availability_conflicts ::
  "env \<Rightarrow> db \<Rightarrow> nat list \<Rightarrow> datetime \<Rightarrow> datetime \<Rightarrow> nat \<Rightarrow> nat option \<Rightarrow> conflict list" where
  "detect_availability_conflicts ev d sids st en u excl =
     concat (map (\<lambda>sid. unique_item_conflicts ev d sid st en u excl) sids)"

text \<open>
  A value found under \<^verbatim>\<open>start_time\<close> or \<^verbatim>\<open>end_time\<close>: a datetime object, a string, or
  something else (\<^verbatim>\<open>None\<close> included).
\<close>

datatype dt_value = DT datetime | Str string | NoneV

definition dt_truthy :: "dt_value \<Rightarrow> bool" where
  "dt_truthy v = (case v of DT t \<Rightarrow> True | Str x \<Rightarrow> x \<noteq> [] | NoneV \<Rightarrow> False)"

text \<open>\<^verbatim>\<open>x.replace('Z', '+00:00')\<close>\<close>

definition replace_Z :: "string \<Rightarrow> string" where
  "replace_Z x = concat (map (\<lambda>c. if c = CHR ''Z'' then ''+00:00'' else [c]) x)"

text \<open>
  The conversion at the head of detect_conflicts; the \<^verbatim>\<open>ValueError\<close> of
  \<^verbatim>\<open>datetime.fromisoformat\<close> is not caught there.
\<close>

definition to_datetime :: "env \<Rightarrow> dt_value \<Rightarrow> exn + datetime" where
  "to_datetime ev v =
     (case v of
        DT t \<Rightarrow> Inr t
      | Str x \<Rightarrow> (case fromisoformat ev (replace_Z x) of None \<Rightarrow> Inl ValueError | Some t \<Rightarrow> Inr t)
      | NoneV \<Rightarrow> Inl AttributeError)"

text \<open>The three checks of detect_conflicts on a converted window, in the order of the source.\<close>

definition detect_conflicts_at ::
  "env \<Rightarrow> db \<Rightarrow> datetime \<Rightarrow> datetime \<Rightarrow> nat list \<Rightarrow> nat \<Rightarrow> nat option \<Rightarrow> exn + conflict list" where
  "detect_conflicts_at ev d st en sids u excl =
     (case collect (\<lambda>sid. detect_service_conflicts ev d sid st en u excl) sids of
        Inl err \<Rightarrow> Inl err
      | Inr service_conflicts \<Rightarrow>
          Inr (concat service_conflicts
               @ detect_business_hours_conflicts d st en u
               @ detect_availability_conflicts ev d sids st en u excl))"

definition detect_conflicts ::
  "env \<Rightarrow> db \<Rightarrow> dt_value \<Rightarrow> dt_value \<Rightarrow> nat list \<Rightarrow> nat \<Rightarrow> nat option \<Rightarrow> exn + conflict list" where
  "detect_conflicts ev d sv evl sids u excl =
     (if \<not> dt_truthy sv \<or> \<not> dt_truthy evl then Inr []
      else case to_datetime ev sv of
             Inl err \<Rightarrow> Inl err
           | Inr st \<Rightarrow> (case to_datetime ev evl of
                          Inl err \<Rightarrow> Inl err
                        | Inr en \<Rightarrow> detect_conflicts_at ev d st en sids u excl))"

section \<open>AvailabilityService and ServiceCatalogService\<close>

text \<open>A reported quantity: a number, or \<^verbatim>\<open>float('inf')\<close>.\<close>

datatype qty = Qty int | Unbounded

record availability =
  av_available :: bool
  av_reason :: "string option"
  av_quantity_available :: "qty option"
  av_quantity_total :: "qty option"
  av_quantity_used :: "int option"
  av_conflicting_bookings :: "nat list option"

text \<open>
  The sum of _check_service_availability: for each row of the join, the aggregate
  \<^verbatim>\<open>Sum('quantity')\<close> over that booking's lines on the service (\<^verbatim>\<open>or 0\<close> when there is none).
\<close>

definition quantity_in_use :: "env \<Rightarrow> db \<Rightarrow> nat \<Rightarrow> int \<Rightarrow> int \<Rightarrow> nat \<Rightarrow> int" where
  "quantity_in_use ev d sid s e u =
     sum_list (map (\<lambda>b. sum_list (map quantity (lines_of d b sid)))
       (fetch ev (booking_rows d sid s e u)))"

text \<open>AvailabilityService._check_service_availability\<close>

definition avs_check_service_availability ::
  "env \<Rightarrow> db \<Rightarrow> service \<Rightarrow> datetime \<Rightarrow> datetime \<Rightarrow> nat \<Rightarrow> availability" where
  "avs_check_service_availability ev d sv st en u =
     (if \<not> s_is_active sv then
        \<lparr>av_available = False, av_reason = Some ''Service is not active'',
         av_quantity_available = Some (Qty 0),
         av_quantity_total = Some (Qty (quantity_available sv)),
         av_quantity_used = None, av_conflicting_bookings = None\<rparr>
      else if availability_type sv = Unlimited then
        \<lparr>av_available = True, av_reason = None,
         av_quantity_available = Some Unbounded, av_quantity_total = Some Unbounded,
         av_quantity_used = None, av_conflicting_bookings = None\<rparr>
      else
        (let used = quantity_in_use ev d (s_id sv) (instant ev st) (instant ev en) u;
             left = quantity_available sv - used
         in \<lparr>av_available = (left > 0), av_reason = None,
              av_quantity_available = Some (Qty (max 0 left)),
              av_quantity_total = Some (Qty (quantity_available sv)),
              av_quantity_used = Some used,
              av_conflicting_bookings =
                Some (map b_id
                  (fetch ev (booking_rows d (s_id sv) (instant ev st) (instant ev en) u)))\<rparr>))"

text \<open>
  AvailabilityService.check_availability: the dictionary keyed by service id, as the list
  of its entries in request order.
\<close>

definition check_availability ::
  "env \<Rightarrow> db \<Rightarrow> nat list \<Rightarrow> datetime \<Rightarrow> datetime \<Rightarrow> nat \<Rightarrow> (nat \<times> availability) list" where
  "check_availability ev d sids st en u =
     map (\<lambda>sid.
            (sid,
             case find (\<lambda>sv. s_id sv = sid \<and> s_user_id sv = u \<and> s_is_active sv)
                    (service_objects d) of
               Some sv \<Rightarrow> avs_check_service_availability ev d sv st en u
             | None \<Rightarrow>
                 \<lparr>av_available = False, av_reason = Some ''Service not found or inactive'',
                  av_quantity_available = None, av_quantity_total = None,
                  av_quantity_used = None, av_conflicting_bookings = None\<rparr>))
         sids"

record catalog_availability =
  ca_available :: bool
  ca_reason :: "string option"
  ca_available_quantity :: "int option"

text \<open>
  The aggregate of ServiceCatalogService.check_service_availability: the lines of the
  service whose booking (the foreign key) is active and overlaps the window.
\<close>

definition booked_quantity :: "db \<Rightarrow> nat \<Rightarrow> int \<Rightarrow> int \<Rightarrow> int" where
  "booked_quantity d sid s e =
     sum_list (map quantity
       (filter (\<lambda>bs. bs_service bs = sid \<and>
                  (case find (\<lambda>b. b_id b = bs_booking bs) (booking_objects d) of
                     None \<Rightarrow> False
                   | Some b \<Rightarrow> overlaps b s e \<and> active_status (status b)))
          (booking_service_objects d)))"

text \<open>ServiceCatalogService.check_service_availability\<close>

definition catalog_check_service_availability ::
  "env \<Rightarrow> db \<Rightarrow> nat \<Rightarrow> nat \<Rightarrow> datetime \<Rightarrow> datetime \<Rightarrow> int \<Rightarrow> catalog_availability" where
  "catalog_check_service_availability ev d u sid st en requested =
     (case get_service d sid u of
        None \<Rightarrow> \<lparr>ca_available = False, ca_reason = Some ''Service not found'',
                 ca_available_quantity = None\<rparr>
      | Some sv \<Rightarrow>
          if \<not> s_is_active sv then
            \<lparr>ca_available = False, ca_reason = Some ''Service is not active'',
             ca_available_quantity = None\<rparr>
          else if availability_type sv = Unlimited then
            \<lparr>ca_available = True, ca_reason = None, ca_available_quantity = Some requested\<rparr>
          else
            (let available_quantity =
                   quantity_available sv
                   - booked_quantity d (s_id sv) (instant ev st) (instant ev en)
             in if available_quantity \<ge> requested then
                  \<lparr>ca_available = True, ca_reason = None,
                   ca_available_quantity = Some available_quantity\<rparr>
                else
                  \<lparr>ca_available = False, ca_reason = Some ''Insufficient quantity available'',
                   ca_available_quantity = Some available_quantity\<rparr>))"

section \<open>The quantities the specification speaks of\<close>

text \<open>
  A reservation (a line) counts toward a window when its parent booking is active, overlaps
  the window and is not the excluded booking. The reserved quantity of a service in a
  window is the sum of the claimed quantities of the reservations that count.
\<close>

definition counts_toward :: "db \<Rightarrow> nat option \<Rightarrow> int \<Rightarrow> int \<Rightarrow> booking_service \<Rightarrow> bool" where
  "counts_toward d excl s e bs =
     list_ex (\<lambda>b. b_id b = bs_booking bs \<and> active_status (status b) \<and> overlaps b s e \<and>
                  not_excluded excl b)
       (booking_objects d)"

definition reserved_quantity :: "db \<Rightarrow> nat \<Rightarrow> int \<Rightarrow> int \<Rightarrow> nat option \<Rightarrow> int" where
  "reserved_quantity d sid s e excl =
     sum_list (map quantity
       (filter (\<lambda>bs. bs_service bs = sid \<and> counts_toward d excl s e bs)
          (booking_service_objects d)))"

text \<open>
  The constraints of the schema: booking ids are primary keys, and
  \<^verbatim>\<open>unique_together = ['booking', 'service']\<close> on the lines.
\<close>

definition schema_ok :: "db \<Rightarrow> bool" where
  "schema_ok d =
     (distinct (map b_id (booking_objects d)) \<and>
      distinct (map (\<lambda>bs. (bs_booking bs, bs_service bs)) (booking_service_objects d)))"

text \<open>Tenant scoping: every booking with a line on the service belongs to tenant \<open>u\<close>.\<close>

definition tenant_scoped :: "db \<Rightarrow> nat \<Rightarrow> nat \<Rightarrow> bool" where
  "tenant_scoped d sid u =
     list_all (\<lambda>b. lines_of d b sid = [] \<or> b_user_id b = u) (booking_objects d)"

text \<open>The overlapping active bookings of a service: active, overlapping, not excluded, with a line on it.\<close>

definition overlapping_active :: "db \<Rightarrow> nat \<Rightarrow> int \<Rightarrow> int \<Rightarrow> nat option \<Rightarrow> booking list" where
  "overlapping_active d sid s e excl =
     filter (\<lambda>b. list_ex (\<lambda>l. bs_booking l = b_id b \<and> bs_service l = sid)
                   (booking_service_objects d) \<and>
                 active_status (status b) \<and> overlaps b s e \<and> not_excluded excl b)
       (booking_objects d)"

section \<open>The conflicts when nothing raises\<close>

text \<open>
  For the proofs: the list that _detect_service_conflicts builds for a window of instants
  when no comparison of datetimes raises, and the list of detect_conflicts with it.
\<close>

definition service_conflicts_listed ::
  "env \<Rightarrow> db \<Rightarrow> nat \<Rightarrow> int \<Rightarrow> int \<Rightarrow> nat \<Rightarrow> nat option \<Rightarrow> conflict list" where
  "service_conflicts_listed ev d sid s e u excl =
     (case get_service d sid u of
        None \<Rightarrow> []
      | Some sv \<Rightarrow>
          if availability_type sv = Unlimited then []
          else if total_quantity_used ev d sid s e u excl + 1 > quantity_available sv
          then map (\<lambda>b. \<lparr>cf_type = Service_overlap, cf_severity = High,
                          cf_service_id = Some sid, cf_conflicting = [b_id b]\<rparr>)
                 (fetch ev (overlapping_bookings d sid s e u excl))
          else [])"

definition conflicts_listed ::
  "env \<Rightarrow> db \<Rightarrow> datetime \<Rightarrow> datetime \<Rightarrow> nat list \<Rightarrow> nat \<Rightarrow> nat option \<Rightarrow> conflict list" where
  "conflicts_listed ev d st en sids u excl =
     concat (map (\<lambda>sid. service_conflicts_listed ev d sid (instant ev st) (instant ev en) u excl)
               sids)
     @ detect_business_hours_conflicts d st en u
     @ detect_availability_conflicts ev d sids st en u excl"

section \<open>CalendarManagementService.create_booking_from_ai\<close>

text \<open>
  The request. A field of \<^verbatim>\<open>booking_data\<close> is \<open>None\<close> when the key is absent. The e-mail
  of the customer and the name of a service are held as the code uses them, after
  \<^verbatim>\<open>.strip().lower()\<close>.
\<close>

record customer_data =
  cd_email :: string

record service_data =
  sd_id :: "nat option"
  sd_name :: string

record booking_data =
  bd_title :: "string option"
  bd_start_time :: "dt_value option"
  bd_end_time :: "dt_value option"
  bd_customer :: "customer_data option"
  bd_services :: "service_data list option"

record created =
  cr_booking_id :: nat
  cr_status :: booking_status
  cr_conflicts :: "conflict list"
  cr_auto_confirmed :: bool
  cr_total_price :: rat

text \<open>
  The returned dictionary: success, a failure with \<^verbatim>\<open>field_errors\<close> on one field, or the
  handler's \<^verbatim>\<open>'Failed to create booking'\<close>.
\<close>

datatype response = Success created | Field_error string | Failure exn

text \<open>A new primary key (\<^verbatim>\<open>uuid4\<close>): one that no row of the table has.\<close>

definition fresh_id :: "nat list \<Rightarrow> nat" where
  "fresh_id ids = Suc (fold max ids 0)"

text \<open>The loop over \<^verbatim>\<open>required_fields\<close>, returning the values the body reads afterwards.\<close>

definition required_fields ::
  "booking_data \<Rightarrow> string + (string \<times> dt_value \<times> dt_value \<times> customer_data \<times> service_data list)"
  where
  "required_fields bd =
     (case bd_title bd of
        None \<Rightarrow> Inl ''title''
      | Some title \<Rightarrow>
     (case bd_start_time bd of
        None \<Rightarrow> Inl ''start_time''
      | Some sv \<Rightarrow>
     (case bd_end_time bd of
        None \<Rightarrow> Inl ''end_time''
      | Some ev \<Rightarrow>
     (case bd_customer bd of
        None \<Rightarrow> Inl ''customer''
      | Some cd \<Rightarrow>
     (case bd_services bd of
        None \<Rightarrow> Inl ''services''
      | Some sds \<Rightarrow> Inr (title, sv, ev, cd, sds))))))"

text \<open>
  _get_or_create_customer. \<^verbatim>\<open>Customer.objects.get\<close> raises MultipleObjectsReturned on two
  matches; \<^verbatim>\<open>Customer.objects.create\<close> raises IntegrityError when the pair
  (user_id, email) exists (\<^verbatim>\<open>unique_together\<close>), which can only happen for the empty e-mail.
\<close>

definition get_or_create_customer :: "db \<Rightarrow> nat \<Rightarrow> customer_data \<Rightarrow> exn + (nat \<times> db)" where
  "get_or_create_customer d u cd =
     (let email = cd_email cd;
          found = (if email \<noteq> []
                   then filter (\<lambda>c. c_user_id c = u \<and> c_email c = email) (customer_objects d)
                   else [])
      in case found of
           [c] \<Rightarrow> Inr (c_id c, d)
         | c # c' # rest \<Rightarrow> Inl MultipleObjectsReturned
         | [] \<Rightarrow>
             if list_ex (\<lambda>c. c_user_id c = u \<and> c_email c = email) (customer_objects d)
             then Inl IntegrityError
             else (let i = fresh_id (map c_id (customer_objects d))
                   in Inr (i, d\<lparr>customer_objects := customer_objects d @
                                   [\<lparr>c_id = i, c_user_id = u, c_email = email\<rparr>]\<rparr>)))"

text \<open>_validate_services: one entry of the request, then the loop.\<close>

definition resolve_service :: "env \<Rightarrow> db \<Rightarrow> nat \<Rightarrow> service_data \<Rightarrow> service list" where
  "resolve_service ev d u sd =
     (case sd_id sd of
        Some i \<Rightarrow>
          (case find (\<lambda>sv. s_id sv = i \<and> s_user_id sv = u \<and> s_is_active sv) (service_objects d) of
             Some sv \<Rightarrow> [sv]
           | None \<Rightarrow> [])
      | None \<Rightarrow>
          if sd_name sd \<noteq> [] then
            (case find (\<lambda>sv. s_user_id sv = u \<and> s_is_active sv \<and> icontains ev (s_name sv) (sd_name sd))
                    (service_objects d) of
               Some sv \<Rightarrow> [sv]
             | None \<Rightarrow> [])
          else [])"

definition validate_services :: "env \<Rightarrow> db \<Rightarrow> nat \<Rightarrow> service_data list \<Rightarrow> service list" where
  "validate_services ev d u sds = concat (map (resolve_service ev d u) sds)"

text \<open>
  _parse_datetime: a datetime is returned as it is; a string goes to fromisoformat (a final
  \<^verbatim>\<open>Z\<close> rewritten), which gives a naive datetime when the text has no offset, and on
  ValueError the result is \<^verbatim>\<open>timezone.now()\<close>, aware; any other value has no
  \<^verbatim>\<open>endswith\<close>, an AttributeError the method does not catch.
\<close>

definition iso_text :: "string \<Rightarrow> string" where
  "iso_text x = (if x \<noteq> [] \<and> last x = CHR ''Z'' then butlast x @ ''+00:00'' else x)"

definition parse_datetime :: "(string \<Rightarrow> datetime option) \<Rightarrow> int \<Rightarrow> dt_value \<Rightarrow> exn + datetime" where
  "parse_datetime fromiso now v =
     (case v of
        DT t \<Rightarrow> Inr t
      | NoneV \<Rightarrow> Inl AttributeError
      | Str x \<Rightarrow>
          (case fromiso (iso_text x) of
             Some t \<Rightarrow> Inr t
           | None \<Rightarrow> Inr (Aware now 0)))"

text \<open>
  The auto-confirmation expression. \<^verbatim>\<open>confidence_score and ...\<close> is truthiness: a score
  that is \<^verbatim>\<open>None\<close> or 0.0 stops the conjunction.
\<close>

definition severe :: "conflict \<Rightarrow> bool" where
  "severe c = (cf_severity c = High \<or> cf_severity c = Critical)"

definition auto_confirm_decision :: "db \<Rightarrow> nat \<Rightarrow> rat option \<Rightarrow> conflict list \<Rightarrow> bool" where
  "auto_confirm_decision d u confidence_score conflicts =
     (case get_settings d u of
        None \<Rightarrow> False
      | Some cs \<Rightarrow>
          ai_booking_auto_confirm cs \<and>
          (case confidence_score of
             None \<Rightarrow> False
           | Some c \<Rightarrow> c \<noteq> 0 \<and> c \<ge> ai_confidence_threshold cs) \<and>
          \<not> list_ex severe conflicts)"

text \<open>
  The price computed inside the loop of create_booking_from_ai. The rates are Decimal
  (DecimalField) and \<^verbatim>\<open>duration_hours\<close> is a float, and Python's Decimal refuses
  arithmetic with a float: \<^verbatim>\<open>price_per_hour * duration_hours\<close> raises TypeError, and so
  does \<^verbatim>\<open>price_per_day * duration_days\<close> unless \<^verbatim>\<open>max(1, duration_hours / 24)\<close> returned the
  integer 1.
\<close>

definition booking_price :: "service \<Rightarrow> rat \<Rightarrow> exn + rat" where
  "booking_price sv hours =
     (if truthy (price_per_hour sv) then Inl TypeError
      else if truthy (price_per_day sv) then
        (if hours / 24 > 1 then Inl TypeError
         else Inr (amount (price_per_day sv) * 1))
      else Inr (base_price sv))"

text \<open>
  The loop that creates the lines; each round computes the duration anew.
  \<^verbatim>\<open>BookingService.objects.create\<close> raises IntegrityError when the booking already has a
  line on the service (\<^verbatim>\<open>unique_together\<close>). An exception leaves the loop with the rows
  written so far.
\<close>

fun create_booking_services ::
  "datetime \<Rightarrow> datetime \<Rightarrow> nat \<Rightarrow> service list \<Rightarrow> db \<Rightarrow> rat \<Rightarrow> (exn \<times> db) + (rat \<times> db)" where
  "create_booking_services s e bid [] d running_total = Inr (running_total, d)"
| "create_booking_services s e bid (sv # svs) d running_total =
     (case duration_hours s e of
        Inl x \<Rightarrow> Inl (x, d)
      | Inr hours \<Rightarrow>
     (case booking_price sv hours of
        Inl x \<Rightarrow> Inl (x, d)
      | Inr price \<Rightarrow>
          if list_ex (\<lambda>bs. bs_booking bs = bid \<and> bs_service bs = s_id sv)
               (booking_service_objects d)
          then Inl (IntegrityError, d)
          else create_booking_services s e bid svs
                 (d\<lparr>booking_service_objects := booking_service_objects d @
                       [\<lparr>bs_booking = bid, bs_service = s_id sv, quantity = 1,
                         price_per_unit = price, total_price = price\<rparr>]\<rparr>)
                 (running_total + price)))"

definition conflict_log_of :: "nat \<Rightarrow> nat \<Rightarrow> conflict \<Rightarrow> conflict_log" where
  "conflict_log_of u bid c =
     \<lparr>cl_user_id = u, cl_conflict_type = cf_type c, cl_primary_booking = bid,
      cl_severity = cf_severity c, cl_resolution_status = Detected\<rparr>"

text \<open>
  The body from conflict detection to the return, once the request is validated:
  \<open>Inl\<close> carries an exception together with the database as written so far.
\<close>

definition admit ::
  "env \<Rightarrow> db \<Rightarrow> nat \<Rightarrow> string \<Rightarrow> nat \<Rightarrow> service list \<Rightarrow> datetime \<Rightarrow> datetime \<Rightarrow> rat option
     \<Rightarrow> (exn \<times> db) + (response \<times> db)" where
  "admit ev d u title cid svs s e confidence_score =
     (case detect_conflicts ev d (DT s) (DT e) (map s_id svs) u None of
        Inl x \<Rightarrow> Inl (x, d)
      | Inr conflicts \<Rightarrow>
          (let auto_confirm = auto_confirm_decision d u confidence_score conflicts;
               bid = fresh_id (map b_id (booking_objects d));
               d2 = d\<lparr>booking_objects := booking_objects d @
                       [\<lparr>b_id = bid, b_user_id = u, b_customer = cid, b_title = title,
                         start_time = instant ev s, end_time = instant ev e,
                         status = (if auto_confirm then Confirmed else Pending),
                         ai_confidence_score = confidence_score\<rparr>]\<rparr>
           in case create_booking_services s e bid svs d2 0 of
                Inl (x, d3) \<Rightarrow> Inl (x, d3)
              | Inr (running_total, d3) \<Rightarrow>
                  (let d4 = d3\<lparr>conflict_log_objects := conflict_log_objects d3 @
                                  map (conflict_log_of u bid) conflicts\<rparr>
                   in if group_send_raises ev then Inl (ChannelError, d4)
                      else Inr (Success \<lparr>cr_booking_id = bid,
                                  cr_status = (if auto_confirm then Confirmed else Pending),
                                  cr_conflicts = conflicts, cr_auto_confirmed = auto_confirm,
                                  cr_total_price = running_total\<rparr>, d4))))"

text \<open>
  The \<^verbatim>\<open>try\<close> block of create_booking_from_ai. \<^verbatim>\<open>start_time >= end_time\<close> raises
  TypeError when one of the two is naive and the other aware.
\<close>

definition create_booking_try ::
  "env \<Rightarrow> db \<Rightarrow> nat \<Rightarrow> booking_data \<Rightarrow> rat option \<Rightarrow> (exn \<times> db) + (response \<times> db)" where
  "create_booking_try ev d u bd confidence_score =
     (case required_fields bd of
        Inl field \<Rightarrow> Inr (Field_error field, d)
      | Inr (title, sv, evl, cd, sds) \<Rightarrow>
          (case get_or_create_customer d u cd of
             Inl x \<Rightarrow> Inl (x, d)
           | Inr (cid, d1) \<Rightarrow>
               (let svs = validate_services ev d1 u sds
                in if svs = [] then Inr (Field_error ''services'', d1)
                   else
                     (case parse_datetime (fromisoformat ev) (now_at_start ev) sv of
                        Inl x \<Rightarrow> Inl (x, d1)
                      | Inr s \<Rightarrow>
                          (case parse_datetime (fromisoformat ev) (now_at_end ev) evl of
                             Inl x \<Rightarrow> Inl (x, d1)
                           | Inr e \<Rightarrow>
                               (case dt_ge s e of
                                  Inl x \<Rightarrow> Inl (x, d1)
                                | Inr not_before \<Rightarrow>
                                    if not_before then Inr (Field_error ''end_time'', d1)
                                    else admit ev d1 u title cid svs s e confidence_score))))))"

text \<open>
  The method under \<^verbatim>\<open>@transaction.atomic\<close>. The handler \<^verbatim>\<open>except Exception\<close> turns every
  exception into a returned failure, so the decorated function always returns normally and
  the transaction commits, unless a failed save has marked it for rollback.
\<close>

definition create_booking_body ::
  "env \<Rightarrow> db \<Rightarrow> nat \<Rightarrow> booking_data \<Rightarrow> rat option \<Rightarrow> response \<times> db \<times> bool" where
  "create_booking_body ev d u bd confidence_score =
     (case create_booking_try ev d u bd confidence_score of
        Inr (r, d') \<Rightarrow> (r, d', False)
      | Inl (x, d') \<Rightarrow> (Failure x, d', x = IntegrityError))"

definition create_booking_from_ai ::
  "env \<Rightarrow> db \<Rightarrow> nat \<Rightarrow> booking_data \<Rightarrow> rat option \<Rightarrow> response \<times> db" where
  "create_booking_from_ai ev d u bd confidence_score =
     (case create_booking_body ev d u bd confidence_score of
        (r, d', needs_rollback) \<Rightarrow> (r, if needs_rollback then d else d'))"

text \<open>A sequence of admissions, applied one at a time.\<close>

record admission =
  ad_env :: env
  ad_user :: nat
  ad_data :: booking_data
  ad_confidence :: "rat option"

definition admit_one :: "db \<Rightarrow> admission \<Rightarrow> db" where
  "admit_one d a = snd (create_booking_from_ai (ad_env a) d (ad_user a) (ad_data a) (ad_confidence a))"

definition admit_all :: "db \<Rightarrow> admission list \<Rightarrow> db" where
  "admit_all d adms = foldl admit_one d adms"

section \<open>The request as the admission reads it\<close>

text \<open>
  The services the request resolves to and the window it parses to (\<open>None\<close> when a time
  field is absent or its parsing raises), for stating what an admission did.
\<close>

definition requested_services :: "env \<Rightarrow> db \<Rightarrow> nat \<Rightarrow> booking_data \<Rightarrow> service list" where
  "requested_services ev d u bd =
     (case bd_services bd of None \<Rightarrow> [] | Some sds \<Rightarrow> validate_services ev d u sds)"

definition requested_window :: "env \<Rightarrow> booking_data \<Rightarrow> (datetime \<times> datetime) option" where
  "requested_window ev bd =
     (case bd_start_time bd of
        None \<Rightarrow> None
      | Some sv \<Rightarrow>
     (case bd_end_time bd of
        None \<Rightarrow> None
      | Some evl \<Rightarrow>
     (case parse_datetime (fromisoformat ev) (now_at_start ev) sv of
        Inl x \<Rightarrow> None
      | Inr s \<Rightarrow>
     (case parse_datetime (fromisoformat ev) (now_at_end ev) evl of
        Inl x \<Rightarrow> None
      | Inr e \<Rightarrow> Some (s, e)))))"

text \<open>
  The pricing rule written in create_booking_from_ai, as arithmetic on exact numbers:
  the hourly rate times the hours when an hourly rate is set, else the daily rate times the
  days (at least one) when a daily rate is set, else the base price.
\<close>

definition admission_price :: "service \<Rightarrow> rat \<Rightarrow> rat" where
  "admission_price sv hours =
     (if truthy (price_per_hour sv) then amount (price_per_hour sv) * hours
      else if truthy (price_per_day sv) then amount (price_per_day sv) * max 1 (hours / 24)
      else base_price sv)"

definition reservation_line :: "nat \<Rightarrow> rat \<Rightarrow> service \<Rightarrow> booking_service" where
  "reservation_line bid hours sv =
     \<lparr>bs_booking = bid, bs_service = s_id sv, quantity = 1,
      price_per_unit = admission_price sv hours,
      total_price = admission_price sv hours\<rparr>"

section \<open>Concrete inputs\<close>

text \<open>
  A tenant (user 7) with two base-priced items, a tent, \<open>limited\<close> with quantity 1 (base
  price 30, weekly rate 200), and a stage, \<open>unique\<close>, and a mixer rented by the hour,
  \<open>unlimited\<close>. Business hours span the whole day;
  AI bookings are auto-confirmed from the given confidence threshold on. No bookings yet.
\<close>

definition tent :: service where
  "tent = \<lparr>s_id = 1, s_user_id = 7, s_name = ''tent'', s_is_active = True, base_price = 30,
           price_per_hour = None, price_per_day = None, price_per_week = Some 200,
           availability_type = Limited, quantity_available = 1\<rparr>"

definition stage :: service where
  "stage = \<lparr>s_id = 2, s_user_id = 7, s_name = ''stage'', s_is_active = True, base_price = 100,
            price_per_hour = None, price_per_day = None, price_per_week = None,
            availability_type = Unique, quantity_available = 1\<rparr>"

definition mixer :: service where
  "mixer = \<lparr>s_id = 3, s_user_id = 7, s_name = ''mixer'', s_is_active = True, base_price = 15,
            price_per_hour = Some 15, price_per_day = None, price_per_week = None,
            availability_type = Unlimited, quantity_available = 1\<rparr>"

definition shop :: "rat \<Rightarrow> db" where
  "shop threshold =
     \<lparr>service_objects = [tent, stage, mixer], booking_objects = [], booking_service_objects = [],
      calendar_settings_objects =
        [\<lparr>cs_user_id = 7, business_hours_start = 0, business_hours_end = 86400000000,
          ai_booking_auto_confirm = True, ai_confidence_threshold = threshold\<rparr>],
      conflict_log_objects = [], customer_objects = []\<rparr>"

text \<open>
  An environment in which no string parses and the clock reads 10:00 on day 0; the
  default time zone is UTC and the database returns rows by ascending key.
\<close>

definition quiet_env :: env where
  "quiet_env = \<lparr>fromisoformat = (\<lambda>x. None), now_at_start = 36000000000,
                now_at_end = 36000000000, make_aware = (\<lambda>w. w), row_rank = (\<lambda>i. i),
                icontains = (\<lambda>x y. False), group_send_raises = False\<rparr>"


text \<open>An aware datetime in UTC, as a value of a request.\<close>

definition utc :: "int \<Rightarrow> dt_value" where
  "utc t = DT (Aware t 0)"

text \<open>A request for the given services by id, from 10:00 to 12:00 on day 0.\<close>

definition request :: "dt_value \<Rightarrow> nat list \<Rightarrow> booking_data" where
  "request start ids =
     \<lparr>bd_title = Some ''party'', bd_start_time = Some start,
      bd_end_time = Some (utc 43200000000),
      bd_customer = Some \<lparr>cd_email = ''ann@example.org''\<rparr>,
      bd_services = Some (map (\<lambda>i. \<lparr>sd_id = Some i, sd_name = []\<rparr>) ids)\<rparr>"

definition admission_of :: "nat list \<Rightarrow> rat option \<Rightarrow> admission" where
  "admission_of ids confidence =
     \<lparr>ad_env = quiet_env, ad_user = 7, ad_data = request (utc 36000000000) ids,
      ad_confidence = confidence\<rparr>"

text \<open>
  Two states reached by admissions alone: the stage booked once, and the tent (quantity 1)
  requested twice for the same two hours.
\<close>

definition stage_booked :: db where
  "stage_booked = admit_all (shop (4/5)) [admission_of [2] (Some (19/20))]"

definition overbooked :: db where
  "overbooked =
     admit_all (shop (4/5)) [admission_of [1] (Some (19/20)), admission_of [1] (Some (19/20))]"

section \<open>Properties of exact_price\<close>

lemma exact_price_no_week:
  "\<not> truthy (price_per_week s) \<Longrightarrow> exact_price s h = tier_price s h"
  by (subst exact_price.simps) (simp add: tier_price_def)

lemma exact_price_low: "h \<le> 168 \<Longrightarrow> exact_price s h = tier_price s h"
  by (subst exact_price.simps) (simp add: tier_price_def)

lemma exact_price_high:
  "truthy (price_per_week s) \<Longrightarrow> 168 < h \<Longrightarrow>
   exact_price s h =
     floordiv h 168 * amount (price_per_week s) + tier_price s (pymod h 168)"
  using pymod_168_bounds[of h]
  by (subst exact_price.simps) (simp add: exact_price_low)

lemma floordiv_mono: "x \<le> y \<Longrightarrow> 0 < m \<Longrightarrow> floordiv x m \<le> floordiv y m"
  unfolding floordiv_def by (simp add: floor_mono divide_right_mono)

lemma day_units_mono:
  assumes "x \<le> y" "0 \<le> d"
  shows "max 1 (floordiv x 24) * d \<le> max 1 (floordiv y 24) * d"
proof -
  have "floordiv x 24 \<le> floordiv y 24" using assms(1) by (simp add: floordiv_mono)
  then have "max 1 (floordiv x 24) \<le> max 1 (floordiv y 24)" by simp
  then show ?thesis using assms(2) by (rule mult_right_mono)
qed

lemma day_units_ge: "0 \<le> d \<Longrightarrow> d \<le> max 1 (floordiv x 24) * d"
  using mult_right_mono[of 1 "max 1 (floordiv x 24)" d] by simp

lemma tier_price_week:
  "truthy (price_per_week s) \<Longrightarrow> h \<le> 168 \<Longrightarrow>
   tier_price s h =
     (if h \<le> 1 \<and> truthy (price_per_hour s) then amount (price_per_hour s)
      else if h \<le> 24 \<and> truthy (price_per_day s) then amount (price_per_day s)
      else amount (price_per_week s))"
  by (simp add: tier_price_def)

lemma tier_price_week_bounds:
  assumes "rates_consistent s" "truthy (price_per_week s)" "h \<le> 168"
  shows "0 \<le> tier_price s h \<and> tier_price s h \<le> amount (price_per_week s)"
  using assms by (simp add: tier_price_week rates_consistent_def)

lemma tier_price_mono_week:
  assumes "rates_consistent s" "truthy (price_per_week s)" "x \<le> y" "y \<le> 168"
  shows "tier_price s x \<le> tier_price s y"
  using assms by (auto simp add: tier_price_week rates_consistent_def)

lemma tier_price_mono_no_week:
  assumes rc: "rates_consistent s" and nw: "\<not> truthy (price_per_week s)" and xy: "x \<le> y"
  shows "tier_price s x \<le> tier_price s y"
proof (cases "truthy (price_per_day s)")
  case True
  have d0: "0 \<le> amount (price_per_day s)" using rc by (simp add: rates_consistent_def)
  have hd: "truthy (price_per_hour s) \<Longrightarrow> amount (price_per_hour s) \<le> amount (price_per_day s)"
    using rc True by (simp add: rates_consistent_def)
  note ge = day_units_ge[OF d0] and mono = day_units_mono[OF xy d0]
  have ge': "truthy (price_per_hour s) \<Longrightarrow>
      amount (price_per_hour s) \<le> max 1 (floordiv z 24) * amount (price_per_day s)" for z
    using hd ge[of z] by linarith
  show ?thesis using True nw xy hd ge[of y] ge'[of y] mono
    by (auto simp add: tier_price_def)
next
  case False
  show ?thesis
  proof (cases "truthy (price_per_hour s)")
    case True
    have h0: "0 \<le> amount (price_per_hour s)" using rc by (simp add: rates_consistent_def)
    have m1: "x * amount (price_per_hour s) \<le> y * amount (price_per_hour s)"
      using xy h0 by (rule mult_right_mono)
    have m2: "1 < y \<Longrightarrow> amount (price_per_hour s) \<le> y * amount (price_per_hour s)"
      using mult_right_mono[of 1 y "amount (price_per_hour s)"] h0 by simp
    show ?thesis using True False nw xy m1 m2 by (auto simp add: tier_price_def)
  next
    case False
    with \<open>\<not> truthy (price_per_day s)\<close> nw show ?thesis by (simp add: tier_price_def)
  qed
qed

lemma floordiv_168_ge1: "168 < h \<Longrightarrow> 1 \<le> floordiv h 168"
proof -
  assume "168 < h"
  then have "(1::rat) \<le> h / 168" by simp
  then have "1 \<le> \<lfloor>h / 168\<rfloor>" by (simp add: le_floor_iff)
  then show ?thesis unfolding floordiv_def by simp
qed

lemma pymod_plus: "pymod h 168 = h - 168 * floordiv h 168"
  by (simp add: pymod_def floordiv_def)

text \<open>
  In exact arithmetic the price of a consistent rate card does not decrease with the
  duration.
\<close>

lemma exact_price_mono:
  assumes rc: "rates_consistent s" and xy: "d1 \<le> d2"
  shows "exact_price s d1 \<le> exact_price s d2"
proof (cases "truthy (price_per_week s)")
  case False
  then show ?thesis using tier_price_mono_no_week[OF rc False xy] by (simp add: exact_price_no_week)
next
  case True
  let ?w = "amount (price_per_week s)"
  have w0: "0 \<le> ?w" using rc by (simp add: rates_consistent_def)
  show ?thesis
  proof (cases "d2 \<le> 168")
    case le: True
    then have "d1 \<le> 168" using xy by simp
    then show ?thesis using le tier_price_mono_week[OF rc True xy le] by (simp add: exact_price_low)
  next
    case gt: False
    then have hi2: "168 < d2" by simp
    have r2: "0 \<le> pymod d2 168 \<and> pymod d2 168 < 168" by (rule pymod_168_bounds)
    have t2: "0 \<le> tier_price s (pymod d2 168)"
      using tier_price_week_bounds[OF rc True, of "pymod d2 168"] r2 by simp
    have k2: "1 \<le> floordiv d2 168" using hi2 by (rule floordiv_168_ge1)
    have f2: "exact_price s d2 = floordiv d2 168 * ?w + tier_price s (pymod d2 168)"
      using True hi2 by (rule exact_price_high)
    show ?thesis
    proof (cases "d1 \<le> 168")
      case True
      then have "exact_price s d1 \<le> ?w"
        using tier_price_week_bounds[OF rc \<open>truthy (price_per_week s)\<close>, of d1]
        by (simp add: exact_price_low)
      moreover have "?w \<le> floordiv d2 168 * ?w" using mult_right_mono[OF k2 w0] by simp
      ultimately show ?thesis using f2 t2 by linarith
    next
      case False
      then have hi1: "168 < d1" by simp
      have r1: "0 \<le> pymod d1 168 \<and> pymod d1 168 < 168" by (rule pymod_168_bounds)
      have f1: "exact_price s d1 = floordiv d1 168 * ?w + tier_price s (pymod d1 168)"
        using \<open>truthy (price_per_week s)\<close> hi1 by (rule exact_price_high)
      have kk: "floordiv d1 168 \<le> floordiv d2 168" using xy by (simp add: floordiv_mono)
      show ?thesis
      proof (cases "floordiv d1 168 = floordiv d2 168")
        case True
        then have "pymod d1 168 \<le> pymod d2 168" using xy by (simp add: pymod_plus)
        then have "tier_price s (pymod d1 168) \<le> tier_price s (pymod d2 168)"
          using tier_price_mono_week[OF rc \<open>truthy (price_per_week s)\<close>] r2 by simp
        then show ?thesis using f1 f2 True by simp
      next
        case False
        then have "\<lfloor>d1 / 168\<rfloor> < \<lfloor>d2 / 168\<rfloor>" using kk by (simp add: floordiv_def)
        then have "\<lfloor>d1 / 168\<rfloor> + 1 \<le> \<lfloor>d2 / 168\<rfloor>" by simp
        then have "(of_int (\<lfloor>d1 / 168\<rfloor> + 1) :: rat) \<le> of_int \<lfloor>d2 / 168\<rfloor>"
          by (simp only: of_int_le_iff)
        then have "floordiv d1 168 + 1 \<le> floordiv d2 168" by (simp add: floordiv_def)
        then have "(floordiv d1 168 + 1) * ?w \<le> floordiv d2 168 * ?w"
          using w0 by (rule mult_right_mono)
        moreover have "tier_price s (pymod d1 168) \<le> ?w"
          using tier_price_week_bounds[OF rc \<open>truthy (price_per_week s)\<close>, of "pymod d1 168"] r1
          by simp
        ultimately show ?thesis using f1 f2 t2 by (simp add: algebra_simps)
      qed
    qed
  qed
qed

text \<open>The int operations agree with the operations on the numbers the ints denote.\<close>

lemma floordiv_of_int: "floordiv (of_int i) (of_int m) = of_int (i div m)"
  by (simp add: floordiv_def floor_divide_of_int_eq)

lemma pymod_of_int: "pymod (of_int i) (of_int m) = of_int (i mod m)"
proof -
  have "pymod (of_int i) (of_int m) = (of_int (i - m * (i div m)) :: rat)"
    by (simp add: pymod_def floor_divide_of_int_eq)
  then show ?thesis by (simp add: minus_mult_div_eq_mod)
qed

lemma number_floordiv_value:
  "number_value (number_floordiv h m) = floordiv (number_value h) (of_int m)"
  by (cases h) (simp_all add: number_floordiv_def number_value_def floordiv_of_int)

lemma number_mod_value: "number_value (number_mod h m) = pymod (number_value h) (of_int m)"
  by (cases h) (simp_all add: number_mod_def number_value_def pymod_of_int)

lemma times_decimal_value: "times_decimal n r = Inr p \<Longrightarrow> p = number_value n * r"
  by (cases n) (simp_all add: times_decimal_def number_value_def)

lemma max_one_value: "number_value (max_one n) = max 1 (number_value n)"
  by (simp add: max_one_def number_value_def)

text \<open>Below the weekly branch: what the method returns, when it returns, is the tier price.\<close>

lemma price_below_week:
  assumes nw: "\<not> (truthy (price_per_week s) \<and> number_value h > 168)"
    and r: "get_price_for_duration s h = Inr p"
  shows "p = tier_price s (number_value h)"
proof -
  let ?v = "number_value h"
  have eq: "get_price_for_duration s h =
    (if ?v \<le> 1 \<and> truthy (price_per_hour s) then Inr (amount (price_per_hour s))
     else if ?v \<le> 24 \<and> truthy (price_per_day s) then Inr (amount (price_per_day s))
     else if ?v \<le> 168 \<and> truthy (price_per_week s) then Inr (amount (price_per_week s))
     else if truthy (price_per_day s) then
       times_decimal (max_one (number_floordiv h 24)) (amount (price_per_day s))
     else if truthy (price_per_hour s) then times_decimal h (amount (price_per_hour s))
     else Inr (base_price s))"
    using nw by (subst get_price_for_duration.simps) auto
  consider (a) "?v \<le> 1 \<and> truthy (price_per_hour s)"
    | (b) "\<not> (?v \<le> 1 \<and> truthy (price_per_hour s))" "?v \<le> 24 \<and> truthy (price_per_day s)"
    | (c) "\<not> (?v \<le> 1 \<and> truthy (price_per_hour s))" "\<not> (?v \<le> 24 \<and> truthy (price_per_day s))"
          "?v \<le> 168 \<and> truthy (price_per_week s)"
    | (d) "\<not> (?v \<le> 1 \<and> truthy (price_per_hour s))" "\<not> (?v \<le> 24 \<and> truthy (price_per_day s))"
          "\<not> (?v \<le> 168 \<and> truthy (price_per_week s))" "truthy (price_per_day s)"
    | (e) "\<not> (?v \<le> 1 \<and> truthy (price_per_hour s))" "\<not> (?v \<le> 24 \<and> truthy (price_per_day s))"
          "\<not> (?v \<le> 168 \<and> truthy (price_per_week s))" "\<not> truthy (price_per_day s)"
          "truthy (price_per_hour s)"
    | (f) "\<not> (?v \<le> 1 \<and> truthy (price_per_hour s))" "\<not> (?v \<le> 24 \<and> truthy (price_per_day s))"
          "\<not> (?v \<le> 168 \<and> truthy (price_per_week s))" "\<not> truthy (price_per_day s)"
          "\<not> truthy (price_per_hour s)"
    by blast
  then show ?thesis
  proof cases
    case a
    then show ?thesis using r eq by (auto simp add: tier_price_def)
  next
    case b
    then show ?thesis using r eq by (auto simp add: tier_price_def)
  next
    case c
    then show ?thesis using r eq by (auto simp add: tier_price_def)
  next
    case d
    then have "times_decimal (max_one (number_floordiv h 24)) (amount (price_per_day s)) = Inr p"
      using r eq by auto
    then have "p = max 1 (floordiv ?v 24) * amount (price_per_day s)"
      using times_decimal_value[of "max_one (number_floordiv h 24)" "amount (price_per_day s)" p]
      by (simp add: max_one_value number_floordiv_value)
    then show ?thesis using d by (auto simp add: tier_price_def)
  next
    case e
    then have "times_decimal h (amount (price_per_hour s)) = Inr p" using r eq by auto
    then have "p = ?v * amount (price_per_hour s)" by (rule times_decimal_value)
    then show ?thesis using e by (auto simp add: tier_price_def)
  next
    case f
    then show ?thesis using r eq by (auto simp add: tier_price_def)
  qed
qed

text \<open>Whatever the method returns is the price in exact arithmetic.\<close>

lemma price_exact:
  assumes r: "get_price_for_duration s h = Inr p"
  shows "p = exact_price s (number_value h)"
proof (cases "truthy (price_per_week s) \<and> number_value h > 168")
  case False
  have "exact_price s (number_value h) = tier_price s (number_value h)"
    using False exact_price_no_week[of s "number_value h"] exact_price_low[of "number_value h" s]
    by (cases "truthy (price_per_week s)") simp_all
  then show ?thesis using price_below_week[OF False r] by simp
next
  case True
  let ?w = "amount (price_per_week s)"
  have eq: "get_price_for_duration s h =
       (case times_decimal (number_floordiv h 168) ?w of
          Inl x \<Rightarrow> Inl x
        | Inr a \<Rightarrow>
            (case get_price_for_duration s (number_mod h 168) of
               Inl x \<Rightarrow> Inl x
             | Inr b \<Rightarrow> Inr (a + b)))"
    using True by (subst get_price_for_duration.simps) simp
  from r eq obtain a where a: "times_decimal (number_floordiv h 168) ?w = Inr a"
    by (cases "times_decimal (number_floordiv h 168) ?w") simp_all
  from r eq a obtain b where b: "get_price_for_duration s (number_mod h 168) = Inr b"
    by (cases "get_price_for_duration s (number_mod h 168)") simp_all
  have p: "p = a + b" using r eq a b by simp
  have av: "a = floordiv (number_value h) 168 * ?w"
    using times_decimal_value[OF a] by (simp add: number_floordiv_value)
  have low: "\<not> (truthy (price_per_week s) \<and> number_value (number_mod h 168) > 168)"
    using number_mod_168_bounds[of h] by simp
  have bv: "b = tier_price s (pymod (number_value h) 168)"
    using price_below_week[OF low b] by (simp add: number_mod_value)
  show ?thesis using True p av bv by (simp add: exact_price_high)
qed

text \<open>For an int the method always returns a price.\<close>

lemma times_decimal_int: "times_decimal (PyInt i) r = Inr (of_int i * r)"
  by (simp add: times_decimal_def)

lemma max_one_int: "max_one (PyInt i) = PyInt (max 1 i)"
  by (simp add: max_one_def number_value_def max_def)

lemma price_of_int_below_week:
  assumes "\<not> (truthy (price_per_week s) \<and> number_value (PyInt n) > 168)"
  shows "\<exists>p. get_price_for_duration s (PyInt n) = Inr p"
  using assms
  by (subst get_price_for_duration.simps)
     (auto simp add: number_floordiv_def max_one_int times_decimal_int)

lemma price_of_int: "\<exists>p. get_price_for_duration s (PyInt n) = Inr p"
proof (cases "truthy (price_per_week s) \<and> number_value (PyInt n) > 168")
  case False
  then show ?thesis by (rule price_of_int_below_week)
next
  case True
  have low: "\<not> (truthy (price_per_week s) \<and> number_value (PyInt (n mod 168)) > 168)"
    using number_mod_168_bounds[of "PyInt n"] by (simp add: number_mod_def)
  from price_of_int_below_week[OF low] obtain b where
    b: "get_price_for_duration s (PyInt (n mod 168)) = Inr b" by blast
  show ?thesis using True b
    by (subst get_price_for_duration.simps)
       (simp add: number_floordiv_def number_mod_def times_decimal_int)
qed

text \<open>For a float the method returns a price exactly where it multiplies no rate by it.\<close>

lemma times_decimal_float: "times_decimal (PyFloat x) r = Inl TypeError"
  by (simp add: times_decimal_def)

lemma floordiv_24_gt_1: "(floordiv x 24 > 1) = (48 \<le> x)"
proof -
  have "(1 < \<lfloor>x / 24\<rfloor>) = (2 \<le> \<lfloor>x / 24\<rfloor>)" by linarith
  also have "\<dots> = (2 \<le> x / 24)" by (simp add: le_floor_iff)
  also have "\<dots> = (48 \<le> x)" by simp
  finally show ?thesis by (simp add: floordiv_def)
qed

lemma price_float_eq:
  "get_price_for_duration s (PyFloat x) =
    (if x \<le> 1 \<and> truthy (price_per_hour s) then Inr (amount (price_per_hour s))
     else if x \<le> 24 \<and> truthy (price_per_day s) then Inr (amount (price_per_day s))
     else if x \<le> 168 \<and> truthy (price_per_week s) then Inr (amount (price_per_week s))
     else if truthy (price_per_week s) \<and> x > 168 then Inl TypeError
     else if truthy (price_per_day s) then
       (if 48 \<le> x then Inl TypeError else Inr (amount (price_per_day s)))
     else if truthy (price_per_hour s) then Inl TypeError
     else Inr (base_price s))"
proof -
  have m: "max_one (PyFloat (floordiv x 24)) = (if 48 \<le> x then PyFloat (floordiv x 24) else PyInt 1)"
    by (simp add: max_one_def number_value_def floordiv_24_gt_1)
  show ?thesis
    by (subst get_price_for_duration.simps)
       (simp add: number_value_def number_floordiv_def m times_decimal_float times_decimal_int)
qed

lemma price_of_float:
  "(\<exists>p. get_price_for_duration s (PyFloat x) = Inr p) = float_priced s x"
  unfolding price_float_eq float_priced_def by auto

lemma price_of_float_error:
  "\<not> float_priced s x \<Longrightarrow> get_price_for_duration s (PyFloat x) = Inl TypeError"
  unfolding price_float_eq float_priced_def by (auto split: if_splits)

text \<open>
  Claim C8, as amended. For a rate card that is consistent (the rates that are set are
  not negative and ordered hourly \<open>\<le>\<close> daily \<open>\<le>\<close> weekly) and durations \<open>d1 \<le> d2\<close> at
  which get_price_for_duration returns prices, the price at \<open>d1\<close> is at most the price at
  \<open>d2\<close>. The method returns a price for every int duration; for a float duration, which
  is what calculate_service_price passes, it returns a price exactly where it multiplies
  no rate by the float (up to one week when a weekly rate is set, else below two days
  when a daily rate is set, else up to one hour when an hourly rate is set, else always),
  and raises TypeError elsewhere.
\<close>

theorem get_price_for_duration_mono:
  assumes rc: "rates_consistent s" and xy: "number_value d1 \<le> number_value d2"
  shows "(\<forall>p1 p2. get_price_for_duration s d1 = Inr p1 \<and> get_price_for_duration s d2 = Inr p2
            \<longrightarrow> p1 \<le> p2) \<and>
         (\<forall>n. \<exists>p. get_price_for_duration s (PyInt n) = Inr p) \<and>
         (\<forall>x. (\<exists>p. get_price_for_duration s (PyFloat x) = Inr p) = float_priced s x) \<and>
         (\<forall>x. \<not> float_priced s x \<longrightarrow> get_price_for_duration s (PyFloat x) = Inl TypeError)"
proof (intro conjI allI impI)
  fix p1 p2
  assume "get_price_for_duration s d1 = Inr p1 \<and> get_price_for_duration s d2 = Inr p2"
  then have "p1 = exact_price s (number_value d1)" "p2 = exact_price s (number_value d2)"
    by (simp_all add: price_exact)
  then show "p1 \<le> p2" using exact_price_mono[OF rc xy] by simp
next
  fix n show "\<exists>p. get_price_for_duration s (PyInt n) = Inr p" by (rule price_of_int)
next
  fix x show "(\<exists>p. get_price_for_duration s (PyFloat x) = Inr p) = float_priced s x"
    by (rule price_of_float)
next
  fix x assume "\<not> float_priced s x"
  then show "get_price_for_duration s (PyFloat x) = Inl TypeError"
    by (rule price_of_float_error)
qed

text \<open>
  A consistent card (10 per hour, 50 per day, 200 per week), with float durations: half
  an hour costs 10 and 30 hours cost 200. At 170 hours the method returns 250 for the
  int (one week plus the day rate for the two hours left) and raises for the float.
\<close>

theorem get_price_for_duration_mono_witness:
  "rates_consistent (rate_card 5 (Some 10) (Some 50) (Some 200)) \<and>
   number_value (PyFloat (1/2)) \<le> number_value (PyFloat 30) \<and>
   get_price_for_duration (rate_card 5 (Some 10) (Some 50) (Some 200)) (PyFloat (1/2)) = Inr 10 \<and>
   get_price_for_duration (rate_card 5 (Some 10) (Some 50) (Some 200)) (PyFloat 30) = Inr 200 \<and>
   (10::rat) \<le> 200 \<and>
   get_price_for_duration (rate_card 5 (Some 10) (Some 50) (Some 200)) (PyInt 170) = Inr 250 \<and>
   \<not> float_priced (rate_card 5 (Some 10) (Some 50) (Some 200)) 170 \<and>
   get_price_for_duration (rate_card 5 (Some 10) (Some 50) (Some 200)) (PyFloat 170)
     = Inl TypeError"
proof -
  let ?c = "rate_card 5 (Some 10) (Some 50) (Some 200)"
  have rc: "rates_consistent ?c"
    by (simp add: rates_consistent_def rate_card_def truthy_def amount_def)
  have le: "number_value (PyFloat (1/2)) \<le> number_value (PyFloat 30)"
    by (simp add: number_value_def)
  have v1: "get_price_for_duration ?c (PyFloat (1/2)) = Inr 10" by code_simp
  have v2: "get_price_for_duration ?c (PyFloat 30) = Inr 200" by code_simp
  have v3: "get_price_for_duration ?c (PyInt 170) = Inr 250" by code_simp
  have nf: "\<not> float_priced ?c 170" by code_simp
  note t = get_price_for_duration_mono[OF rc le]
  have c: "(10::rat) \<le> 200"
    by (rule t[THEN conjunct1, rule_format, OF conjI[OF v1 v2]])
  have e: "get_price_for_duration ?c (PyFloat 170) = Inl TypeError"
    by (rule t[THEN conjunct2, THEN conjunct2, THEN conjunct2, rule_format, OF nf])
  from rc le v1 v2 c v3 nf e show ?thesis by (intro conjI)
qed

text \<open>
  Claim C8 as stated fails: with 100 per hour and 1 per day, both rates non-negative,
  one hour costs 100 and two hours cost 1, for float and for int durations alike.
\<close>

theorem get_price_for_duration_not_mono:
  "0 \<le> base_price (rate_card 0 (Some 100) (Some 1) None) \<and>
   0 \<le> amount (price_per_hour (rate_card 0 (Some 100) (Some 1) None)) \<and>
   0 \<le> amount (price_per_day (rate_card 0 (Some 100) (Some 1) None)) \<and>
   0 \<le> amount (price_per_week (rate_card 0 (Some 100) (Some 1) None)) \<and>
   number_value (PyFloat 1) \<le> number_value (PyFloat 2) \<and>
   get_price_for_duration (rate_card 0 (Some 100) (Some 1) None) (PyFloat 1) = Inr 100 \<and>
   get_price_for_duration (rate_card 0 (Some 100) (Some 1) None) (PyFloat 2) = Inr 1 \<and>
   get_price_for_duration (rate_card 0 (Some 100) (Some 1) None) (PyInt 1) = Inr 100 \<and>
   get_price_for_duration (rate_card 0 (Some 100) (Some 1) None) (PyInt 2) = Inr 1 \<and>
   \<not> (100::rat) \<le> 1"
  by code_simp

section \<open>Iteration order and loops\<close>

lemma mset_fetch: "mset (fetch ev rows) = mset rows"
  by (simp add: fetch_def)

lemma set_fetch: "set (fetch ev rows) = set rows"
  by (simp add: fetch_def)

lemma fetch_empty: "(fetch ev rows = []) = (rows = [])"
  using mset_fetch[of ev rows] by (metis mset_zero_iff)

lemma sum_list_fetch: "sum_list (map f (fetch ev rows)) = (sum_list (map f rows) :: int)"
proof -
  have "sum_mset (image_mset f (mset (fetch ev rows))) = sum_mset (image_mset f (mset rows))"
    by (simp only: mset_fetch)
  then show ?thesis by (simp only: mset_map[symmetric] sum_mset_sum_list)
qed

lemma collect_total: "(\<And>x. x \<in> set xs \<Longrightarrow> f x = Inr (g x)) \<Longrightarrow> collect f xs = Inr (map g xs)"
  by (induction xs) simp_all

lemma collect_Inr: "collect f xs = Inr ys \<Longrightarrow> list_all2 (\<lambda>x y. f x = Inr y) xs ys"
proof (induction xs arbitrary: ys)
  case Nil then show ?case by simp
next
  case (Cons x xs)
  then show ?case by (auto split: sum.splits)
qed

lemma collect_Inl: "collect f xs = Inl err \<Longrightarrow> \<exists>x \<in> set xs. f x = Inl err"
proof (induction xs)
  case Nil then show ?case by simp
next
  case (Cons x xs)
  then show ?case by (auto split: sum.splits)
qed

lemma collect_raises: "x \<in> set xs \<Longrightarrow> f x = Inl err \<Longrightarrow> \<exists>err'. collect f xs = Inl err'"
proof (induction xs)
  case Nil then show ?case by simp
next
  case (Cons y ys)
  then show ?case by (cases "f y"; cases "collect f ys") auto
qed

section \<open>The sums of the code and the reserved quantity\<close>

lemma sum_filter_disj:
  "(\<And>x. x \<in> set xs \<Longrightarrow> \<not> (A x \<and> C x)) \<Longrightarrow>
   sum_list (map q (filter (\<lambda>x. A x \<or> C x) xs)) =
   sum_list (map q (filter A xs)) + (sum_list (map q (filter C xs)) :: int)"
  by (induction xs) auto

lemma filter_key_length:
  "distinct (map key xs) \<Longrightarrow> length (filter (\<lambda>x. key x = k) xs) \<le> 1"
proof (induction xs)
  case Nil
  then show ?case by simp
next
  case (Cons x xs)
  show ?case
  proof (cases "key x = k")
    case True
    then have "k \<notin> key ` set xs" using Cons.prems by auto
    then have "filter (\<lambda>x. key x = k) xs = []" by (auto simp add: filter_empty_conv)
    then show ?thesis using True by simp
  next
    case False
    then show ?thesis using Cons by simp
  qed
qed

lemma lines_of_length: "schema_ok d \<Longrightarrow> length (lines_of d b sid) \<le> 1"
proof -
  assume "schema_ok d"
  then have "distinct (map (\<lambda>bs. (bs_booking bs, bs_service bs)) (booking_service_objects d))"
    by (simp add: schema_ok_def)
  from filter_key_length[OF this, of "(b_id b, sid)"] show ?thesis
    by (simp add: lines_of_def)
qed

lemma first_line_quantity_sum:
  "schema_ok d \<Longrightarrow> first_line_quantity d sid b = sum_list (map quantity (lines_of d b sid))"
  using lines_of_length[of d b sid]
  by (cases "lines_of d b sid") (auto simp add: first_line_quantity_def)

lemma join_sum:
  assumes "schema_ok d"
  shows "sum_list (map f (concat (map (\<lambda>b. map (\<lambda>bs. b) (lines_of d b sid)) bs))) =
         (sum_list (map (\<lambda>b. if lines_of d b sid = [] then 0 else f b) bs) :: int)"
proof (induction bs)
  case Nil
  then show ?case by simp
next
  case (Cons b bs)
  have "length (lines_of d b sid) \<le> 1" using assms by (rule lines_of_length)
  then have "sum_list (map f (map (\<lambda>bs. b) (lines_of d b sid))) =
             (if lines_of d b sid = [] then 0 else f b)"
    by (cases "lines_of d b sid") auto
  then show ?case using Cons by simp
qed

lemma bookings_to_lines:
  assumes "distinct (map b_id bs)"
  shows "sum_list (map (\<lambda>b. sum_list (map quantity (lines_of d b sid))) (filter P bs)) =
         sum_list (map quantity
           (filter (\<lambda>l. bs_service l = sid \<and> list_ex (\<lambda>b. b_id b = bs_booking l \<and> P b) bs)
              (booking_service_objects d)))"
  using assms
proof (induction bs)
  case Nil
  then show ?case by simp
next
  case (Cons b bs)
  let ?L = "booking_service_objects d"
  let ?C = "\<lambda>l. bs_service l = sid \<and> list_ex (\<lambda>b. b_id b = bs_booking l \<and> P b) bs"
  have ih: "sum_list (map (\<lambda>b. sum_list (map quantity (lines_of d b sid))) (filter P bs)) =
            sum_list (map quantity (filter ?C ?L))"
    using Cons by simp
  have fresh: "b_id b \<notin> b_id ` set bs" using Cons.prems by simp
  show ?case
  proof (cases "P b")
    case False
    then have "filter (\<lambda>l. bs_service l = sid \<and> list_ex (\<lambda>b. b_id b = bs_booking l \<and> P b) (b # bs)) ?L
               = filter ?C ?L"
      by (intro filter_cong) auto
    then show ?thesis using False ih by simp
  next
    case True
    let ?A = "\<lambda>l. bs_booking l = b_id b \<and> bs_service l = sid"
    have disj: "\<not> (?A l \<and> ?C l)" for l
    proof
      assume h: "?A l \<and> ?C l"
      then obtain ba where "ba \<in> set bs" "b_id ba = bs_booking l"
        by (auto simp add: list_ex_iff)
      then have "b_id b \<in> b_id ` set bs" using h by (metis image_eqI)
      with fresh show False by simp
    qed
    have e1: "filter (\<lambda>l. bs_service l = sid \<and> list_ex (\<lambda>b. b_id b = bs_booking l \<and> P b) (b # bs)) ?L
          = filter (\<lambda>l. ?A l \<or> ?C l) ?L"
      using True by (intro filter_cong) auto
    have e2: "sum_list (map quantity (filter (\<lambda>l. ?A l \<or> ?C l) ?L))
               = sum_list (map quantity (filter ?A ?L)) + sum_list (map quantity (filter ?C ?L))"
      by (rule sum_filter_disj) (rule disj)
    have e3: "sum_list (map (\<lambda>b. sum_list (map quantity (lines_of d b sid))) (filter P (b # bs)))
               = sum_list (map quantity (filter ?A ?L))
                 + sum_list (map (\<lambda>b. sum_list (map quantity (lines_of d b sid))) (filter P bs))"
      using True by (simp add: lines_of_def)
    show ?thesis unfolding e1 e2 e3 ih ..
  qed
qed

lemma sum_filter_drop:
  "(\<And>x. x \<in> set xs \<Longrightarrow> P x \<Longrightarrow> \<not> R x \<Longrightarrow> f x = 0) \<Longrightarrow>
   sum_list (map f (filter (\<lambda>x. P x \<and> R x) xs)) = (sum_list (map f (filter P xs)) :: int)"
  by (induction xs) auto

lemma counts_toward_tenant:
  assumes ts: "tenant_scoped d sid u" and l: "l \<in> set (booking_service_objects d)"
    and sv: "bs_service l = sid"
  shows "list_ex (\<lambda>b. b_id b = bs_booking l \<and>
                      (b_user_id b = u \<and> overlaps b s e \<and> active_status (status b) \<and> not_excluded excl b))
           (booking_objects d)
         = counts_toward d excl s e l"
proof -
  have own: "b_user_id b = u" if "b \<in> set (booking_objects d)" "b_id b = bs_booking l" for b
  proof -
    have "l \<in> set (lines_of d b sid)" using l sv that(2) by (simp add: lines_of_def)
    then have "lines_of d b sid \<noteq> []" by auto
    then show ?thesis using ts that(1) by (auto simp add: tenant_scoped_def list_all_iff)
  qed
  show ?thesis unfolding counts_toward_def list_ex_iff using own by auto
qed

lemma used_sum_reserved:
  assumes ok: "schema_ok d" and ts: "tenant_scoped d sid u"
  shows "sum_list (map (\<lambda>b. sum_list (map quantity (lines_of d b sid)))
           (filter (\<lambda>b. b_user_id b = u \<and> overlaps b s e \<and> active_status (status b) \<and> not_excluded excl b)
              (booking_objects d)))
         = reserved_quantity d sid s e excl"
proof -
  have dist: "distinct (map b_id (booking_objects d))" using ok by (simp add: schema_ok_def)
  have "filter (\<lambda>l. bs_service l = sid \<and>
            list_ex (\<lambda>b. b_id b = bs_booking l \<and>
               (b_user_id b = u \<and> overlaps b s e \<and> active_status (status b) \<and> not_excluded excl b))
              (booking_objects d)) (booking_service_objects d)
        = filter (\<lambda>l. bs_service l = sid \<and> counts_toward d excl s e l) (booking_service_objects d)"
    using counts_toward_tenant[OF ts] by (intro filter_cong) auto
  then show ?thesis
    unfolding reserved_quantity_def bookings_to_lines[OF dist] by simp
qed

lemma quantity_in_use_reserved:
  assumes ok: "schema_ok d" and ts: "tenant_scoped d sid u"
  shows "quantity_in_use ev d sid s e u = reserved_quantity d sid s e None"
proof -
  let ?agg = "\<lambda>b. sum_list (map quantity (lines_of d b sid))"
  have z: "(\<lambda>b. if lines_of d b sid = [] then 0 else ?agg b) = ?agg" by auto
  have "quantity_in_use ev d sid s e u =
        sum_list (map ?agg (filter (\<lambda>b. b_user_id b = u \<and> overlaps b s e \<and> active_status (status b))
          (booking_objects d)))"
    unfolding quantity_in_use_def sum_list_fetch booking_rows_def join_sum[OF ok] z ..
  also have "\<dots> = sum_list (map ?agg
      (filter (\<lambda>b. b_user_id b = u \<and> overlaps b s e \<and> active_status (status b) \<and> not_excluded None b)
          (booking_objects d)))"
    by (simp add: not_excluded_def)
  also have "\<dots> = reserved_quantity d sid s e None" using ok ts by (rule used_sum_reserved)
  finally show ?thesis .
qed

lemma total_quantity_used_reserved:
  assumes ok: "schema_ok d" and ts: "tenant_scoped d sid u"
  shows "total_quantity_used ev d sid s e u excl = reserved_quantity d sid s e excl"
proof -
  let ?agg = "\<lambda>b. sum_list (map quantity (lines_of d b sid))"
  let ?P = "\<lambda>b. b_user_id b = u \<and> overlaps b s e \<and> active_status (status b) \<and> not_excluded excl b"
  have fq: "first_line_quantity d sid = ?agg"
    using first_line_quantity_sum[OF ok] by auto
  have f: "filter (\<lambda>b. b_user_id b = u \<and> lines_of d b sid \<noteq> [] \<and> overlaps b s e \<and>
                 active_status (status b) \<and> not_excluded excl b) (booking_objects d)
           = filter (\<lambda>b. ?P b \<and> lines_of d b sid \<noteq> []) (booking_objects d)"
    by (intro filter_cong) auto
  have "total_quantity_used ev d sid s e u excl =
        sum_list (map ?agg (filter (\<lambda>b. ?P b \<and> lines_of d b sid \<noteq> []) (booking_objects d)))"
    unfolding total_quantity_used_def sum_list_fetch overlapping_bookings_def fq f ..
  also have "\<dots> = sum_list (map ?agg (filter ?P (booking_objects d)))"
    by (rule sum_filter_drop) simp
  also have "\<dots> = reserved_quantity d sid s e excl" using ok ts by (rule used_sum_reserved)
  finally show ?thesis .
qed

section \<open>Properties of conflict detection\<close>

lemma lines_of_nonempty:
  "(lines_of d b sid \<noteq> []) =
   list_ex (\<lambda>l. bs_booking l = b_id b \<and> bs_service l = sid) (booking_service_objects d)"
  by (simp add: lines_of_def filter_empty_conv list_ex_iff)

lemma overlapping_bookings_active:
  assumes ts: "tenant_scoped d sid u"
  shows "overlapping_bookings d sid s e u excl = overlapping_active d sid s e excl"
  unfolding overlapping_bookings_def overlapping_active_def lines_of_nonempty[symmetric]
  using ts by (intro filter_cong) (auto simp add: tenant_scoped_def list_all_iff)

lemma set_const_map: "set (map (\<lambda>l. b) ls) = (if ls = [] then {} else {b})"
  by (cases ls) auto

lemma set_booking_rows:
  "set (booking_rows d sid s e u) =
   {b \<in> set (booking_objects d). b_user_id b = u \<and> overlaps b s e \<and>
      active_status (status b) \<and> lines_of d b sid \<noteq> []}"
  unfolding booking_rows_def by (auto simp add: image_constant_conv split: if_splits)

lemma booking_rows_nonempty:
  "(filter (not_excluded excl) (booking_rows d sid s e u) \<noteq> []) =
   (filter (\<lambda>b. b_user_id b = u \<and> lines_of d b sid \<noteq> [] \<and> overlaps b s e \<and>
                 active_status (status b) \<and> not_excluded excl b) (booking_objects d) \<noteq> [])"
  unfolding filter_empty_conv set_booking_rows by blast

lemma find_stronger:
  "find P xs = Some x \<Longrightarrow> Q x \<Longrightarrow> find (\<lambda>y. P y \<and> Q y) xs = Some x"
  by (induction xs) (auto split: if_splits)

text \<open>Building a conflict raises exactly when a requested time is naive.\<close>

lemma overlap_conflict_aware:
  "is_aware st \<Longrightarrow> is_aware en \<Longrightarrow>
   service_overlap_conflict sid st en b =
     Inr \<lparr>cf_type = Service_overlap, cf_severity = High, cf_service_id = Some sid,
          cf_conflicting = [b_id b]\<rparr>"
  by (simp add: service_overlap_conflict_def overlap_period_def dt_max_def dt_min_def
      comparable_def from_db_def is_aware_def)

lemma overlap_conflict_naive:
  "\<not> (is_aware st \<and> is_aware en) \<Longrightarrow> service_overlap_conflict sid st en b = Inl TypeError"
  by (auto simp add: service_overlap_conflict_def overlap_period_def dt_max_def dt_min_def
      comparable_def from_db_def is_aware_def split: datetime.splits)

lemma collect_all_raise:
  "xs \<noteq> [] \<Longrightarrow> (\<And>x. f x = Inl err) \<Longrightarrow> collect f xs = Inl err"
  by (cases xs) simp_all

lemma detect_service_conflicts_cases:
  "detect_service_conflicts ev d sid st en u excl =
     (if (is_aware st \<and> is_aware en) \<or>
         service_conflicts_listed ev d sid (instant ev st) (instant ev en) u excl = []
      then Inr (service_conflicts_listed ev d sid (instant ev st) (instant ev en) u excl)
      else Inl TypeError)"
proof (cases "is_aware st \<and> is_aware en")
  case True
  then have "collect (service_overlap_conflict sid st en) rows =
      Inr (map (\<lambda>b. \<lparr>cf_type = Service_overlap, cf_severity = High,
                       cf_service_id = Some sid, cf_conflicting = [b_id b]\<rparr>) rows)" for rows
    by (intro collect_total) (simp add: overlap_conflict_aware)
  then show ?thesis using True
    by (simp add: detect_service_conflicts_def service_conflicts_listed_def
        split: option.splits)
next
  case False
  have r: "collect (service_overlap_conflict sid st en) rows =
      (if rows = [] then Inr [] else Inl TypeError)" for rows
    using collect_all_raise[of rows "service_overlap_conflict sid st en" TypeError]
      overlap_conflict_naive[OF False] by (cases "rows = []") simp_all
  show ?thesis using False
    by (simp add: detect_service_conflicts_def service_conflicts_listed_def r
        split: option.splits)
qed

lemma collect_guarded:
  "collect (\<lambda>x. if A \<or> L x = [] then Inr (L x) else Inl err) xs =
     (if A \<or> (\<forall>x \<in> set xs. L x = []) then Inr (map L xs) else Inl err)"
  by (induction xs) auto

lemma detect_conflicts_at_cases:
  "detect_conflicts_at ev d st en sids u excl =
     (if (is_aware st \<and> is_aware en) \<or>
         (\<forall>sid \<in> set sids.
            service_conflicts_listed ev d sid (instant ev st) (instant ev en) u excl = [])
      then Inr (conflicts_listed ev d st en sids u excl)
      else Inl TypeError)"
  unfolding detect_conflicts_at_def detect_service_conflicts_cases collect_guarded
  by (simp add: conflicts_listed_def)

lemma detect_conflicts_at_aware:
  "is_aware st \<Longrightarrow> is_aware en \<Longrightarrow>
   detect_conflicts_at ev d st en sids u excl = Inr (conflicts_listed ev d st en sids u excl)"
  by (simp add: detect_conflicts_at_cases)

lemma detect_conflicts_at_Inr:
  "detect_conflicts_at ev d st en sids u excl = Inr cs \<Longrightarrow>
   cs = conflicts_listed ev d st en sids u excl"
  by (simp add: detect_conflicts_at_cases split: if_splits)

lemma detect_conflicts_at_Inl:
  "detect_conflicts_at ev d st en sids u excl = Inl err \<Longrightarrow> err = TypeError"
  by (simp add: detect_conflicts_at_cases split: if_splits)

lemma service_conflicts_tagged:
  "c \<in> set (service_conflicts_listed ev d i s e u excl) \<Longrightarrow>
   cf_type c = Service_overlap \<and> cf_service_id c = Some i \<and> cf_severity c = High"
  by (auto simp add: service_conflicts_listed_def split: option.splits if_splits)

lemma unique_conflicts_tagged:
  "c \<in> set (unique_item_conflicts ev d i st en u excl) \<Longrightarrow>
   cf_type c = Availability_limit \<and> cf_service_id c = Some i \<and> cf_severity c = Critical"
  by (auto simp add: unique_item_conflicts_def Let_def split: option.splits if_splits)

lemma business_conflicts_tagged:
  "c \<in> set (detect_business_hours_conflicts d st en u) \<Longrightarrow>
   cf_type c = Business_hours \<and> cf_severity c = Medium"
  by (auto simp add: detect_business_hours_conflicts_def split: option.splits if_splits)

lemma filter_concat_one:
  assumes "distinct is" "i \<in> set is"
    and "\<And>j. j \<noteq> i \<Longrightarrow> filter P (f j) = []"
  shows "filter P (concat (map f is)) = filter P (f i)"
  using assms(1,2)
proof (induction "is")
  case Nil
  then show ?case by simp
next
  case (Cons j js)
  show ?case
  proof (cases "j = i")
    case True
    then have "i \<notin> set js" using Cons.prems by simp
    then have "\<And>j. j \<in> set js \<Longrightarrow> filter P (f j) = []"
      using assms(3) by metis
    then have "filter P (concat (map f js)) = []"
      by (simp add: filter_concat comp_def)
    then show ?thesis using True by simp
  next
    case False
    then show ?thesis using Cons assms(3)[of j] by simp
  qed
qed

lemma service_overlap_part:
  assumes "distinct sids" "sid \<in> set sids"
  shows "filter (\<lambda>c. cf_type c = Service_overlap \<and> cf_service_id c = Some sid)
           (conflicts_listed ev d st en sids u excl)
         = service_conflicts_listed ev d sid (instant ev st) (instant ev en) u excl"
proof -
  let ?P = "\<lambda>c. cf_type c = Service_overlap \<and> cf_service_id c = Some sid"
  let ?s = "instant ev st" and ?e = "instant ev en"
  have a: "filter ?P (concat (map (\<lambda>i. service_conflicts_listed ev d i ?s ?e u excl) sids))
           = filter ?P (service_conflicts_listed ev d sid ?s ?e u excl)"
    using assms
  proof (rule filter_concat_one)
    fix j assume "j \<noteq> sid"
    then show "filter ?P (service_conflicts_listed ev d j ?s ?e u excl) = []"
      using service_conflicts_tagged[of _ ev d j ?s ?e u excl] by (auto simp add: filter_empty_conv)
  qed
  have b: "filter ?P (service_conflicts_listed ev d sid ?s ?e u excl)
           = service_conflicts_listed ev d sid ?s ?e u excl"
    using service_conflicts_tagged[of _ ev d sid ?s ?e u excl] by (auto simp add: filter_id_conv)
  have c: "filter ?P (detect_business_hours_conflicts d st en u) = []"
    using business_conflicts_tagged[of _ d st en u] by (auto simp add: filter_empty_conv)
  have e: "filter ?P (detect_availability_conflicts ev d sids st en u excl) = []"
    using unique_conflicts_tagged[of _ ev d _ st en u excl]
    by (auto simp add: filter_empty_conv detect_availability_conflicts_def)
  show ?thesis unfolding conflicts_listed_def by (simp add: a b c e)
qed

text \<open>The \<open>service_overlap\<close> conflicts of one requested service, up to their order.\<close>

lemma service_overlap_listed:
  assumes ok: "schema_ok d" and ts: "tenant_scoped d sid u"
    and sv: "get_service d sid u = Some sv"
  shows "mset (map cf_conflicting (service_conflicts_listed ev d sid s e u excl))
         = (if availability_type sv \<noteq> Unlimited \<and>
               reserved_quantity d sid s e excl + 1 > quantity_available sv
            then mset (map (\<lambda>b. [b_id b]) (overlapping_active d sid s e excl)) else {#})"
proof -
  have m: "mset (map (\<lambda>b. [b_id b]) (fetch ev rows)) = mset (map (\<lambda>b. [b_id b]) rows)" for rows
    by (simp add: mset_fetch)
  show ?thesis
    using sv
    by (simp add: service_conflicts_listed_def total_quantity_used_reserved[OF ok ts]
        overlapping_bookings_active[OF ts] comp_def m del: mset_map)
qed

lemma service_overlap_nonempty:
  assumes ok: "schema_ok d" and ts: "tenant_scoped d sid u"
    and sv: "get_service d sid u = Some sv"
  shows "(service_conflicts_listed ev d sid s e u excl \<noteq> []) =
         (availability_type sv \<noteq> Unlimited \<and>
          reserved_quantity d sid s e excl + 1 > quantity_available sv \<and>
          overlapping_active d sid s e excl \<noteq> [])"
  using sv
  by (simp add: service_conflicts_listed_def total_quantity_used_reserved[OF ok ts]
      overlapping_bookings_active[OF ts] fetch_empty)

text \<open>
  Claim C5, as amended. For a requested service of the tenant, requested once, all of
  whose bookings belong to that tenant, under the schema's constraints (booking ids are
  keys, at most one reservation per booking and service): whenever detect_conflicts
  returns, it has emitted \<open>service_overlap\<close> conflicts for the service exactly when its
  policy is not \<open>unlimited\<close> (so for \<open>limited\<close> and for \<open>unique\<close> services alike) and the
  reserved quantity of the overlapping active bookings, the excluded booking left out,
  plus the default requested quantity 1 exceeds the total quantity; then there is exactly
  one conflict per overlapping active booking, naming that booking, in no particular
  order, and each has severity \<open>high\<close>. It returns whenever the requested start and end
  are offset-aware datetimes. When one of them is offset-naive and such a conflict is to
  be emitted, it raises TypeError instead: the overlap period of the conflict compares
  the requested times with the aware times of the booking.
\<close>

theorem service_overlap_conflicts:
  assumes ok: "schema_ok d" and ts: "tenant_scoped d sid u"
    and sv: "get_service d sid u = Some sv"
    and sids: "distinct sids" "sid \<in> set sids"
  shows "(\<forall>cs. detect_conflicts_at ev d st en sids u excl = Inr cs \<longrightarrow>
            mset (map cf_conflicting
              (filter (\<lambda>c. cf_type c = Service_overlap \<and> cf_service_id c = Some sid) cs))
            = (if availability_type sv \<noteq> Unlimited \<and>
                  reserved_quantity d sid (instant ev st) (instant ev en) excl + 1
                    > quantity_available sv
               then mset (map (\<lambda>b. [b_id b])
                      (overlapping_active d sid (instant ev st) (instant ev en) excl))
               else {#})
            \<and> list_all (\<lambda>c. cf_severity c = High)
                (filter (\<lambda>c. cf_type c = Service_overlap \<and> cf_service_id c = Some sid) cs))
       \<and> (is_aware st \<and> is_aware en \<longrightarrow>
            (\<exists>cs. detect_conflicts_at ev d st en sids u excl = Inr cs))
       \<and> (\<not> (is_aware st \<and> is_aware en) \<and> availability_type sv \<noteq> Unlimited \<and>
          reserved_quantity d sid (instant ev st) (instant ev en) excl + 1
            > quantity_available sv \<and>
          overlapping_active d sid (instant ev st) (instant ev en) excl \<noteq> [] \<longrightarrow>
            detect_conflicts_at ev d st en sids u excl = Inl TypeError)"
proof (intro conjI allI impI)
  fix cs assume r: "detect_conflicts_at ev d st en sids u excl = Inr cs"
  let ?P = "\<lambda>c. cf_type c = Service_overlap \<and> cf_service_id c = Some sid"
  have f: "filter ?P cs
           = service_conflicts_listed ev d sid (instant ev st) (instant ev en) u excl"
    unfolding detect_conflicts_at_Inr[OF r] using sids by (rule service_overlap_part)
  show "mset (map cf_conflicting (filter ?P cs))
            = (if availability_type sv \<noteq> Unlimited \<and>
                  reserved_quantity d sid (instant ev st) (instant ev en) excl + 1
                    > quantity_available sv
               then mset (map (\<lambda>b. [b_id b])
                      (overlapping_active d sid (instant ev st) (instant ev en) excl))
               else {#})"
    unfolding f using ok ts sv by (rule service_overlap_listed)
  show "list_all (\<lambda>c. cf_severity c = High) (filter ?P cs)"
    unfolding f
    using service_conflicts_tagged[of _ ev d sid "instant ev st" "instant ev en" u excl]
    by (auto simp add: list_all_iff)
next
  assume "is_aware st \<and> is_aware en"
  then show "\<exists>cs. detect_conflicts_at ev d st en sids u excl = Inr cs"
    by (simp add: detect_conflicts_at_aware)
next
  assume a: "\<not> (is_aware st \<and> is_aware en) \<and> availability_type sv \<noteq> Unlimited \<and>
          reserved_quantity d sid (instant ev st) (instant ev en) excl + 1
            > quantity_available sv \<and>
          overlapping_active d sid (instant ev st) (instant ev en) excl \<noteq> []"
  then have "service_conflicts_listed ev d sid (instant ev st) (instant ev en) u excl \<noteq> []"
    by (simp add: service_overlap_nonempty[OF ok ts sv])
  then have "\<not> (\<forall>i \<in> set sids.
            service_conflicts_listed ev d i (instant ev st) (instant ev en) u excl = [])"
    using sids(2) by blast
  then show "detect_conflicts_at ev d st en sids u excl = Inl TypeError"
    using a unfolding detect_conflicts_at_cases by simp
qed

text \<open>
  Claim C6, as amended. For a requested service of the requesting tenant with the
  \<open>unique\<close> policy, all of whose bookings belong to that tenant: whenever detect_conflicts
  returns, it has emitted an \<open>availability_limit\<close> conflict of severity \<open>critical\<close> for
  the service if and only if at least one existing booking of the service with status
  confirmed, pending or in_progress, other than the excluded booking, overlaps the
  requested window under the half-open rule. No quantity enters the condition. Every
  \<open>availability_limit\<close> conflict is \<open>critical\<close>. It returns whenever the requested
  start and end are offset-aware datetimes.
\<close>

theorem unique_item_conflict:
  assumes ts: "tenant_scoped d sid u"
    and sv: "get_service d sid u = Some sv"
    and un: "availability_type sv = Unique"
    and sid: "sid \<in> set sids"
  shows "(\<forall>cs. detect_conflicts_at ev d st en sids u excl = Inr cs \<longrightarrow>
            list_ex (\<lambda>c. cf_type c = Availability_limit \<and> cf_severity c = Critical \<and>
                         cf_service_id c = Some sid) cs
            = (overlapping_active d sid (instant ev st) (instant ev en) excl \<noteq> [])
            \<and> list_all (\<lambda>c. cf_type c \<noteq> Availability_limit \<or> cf_severity c = Critical) cs)
       \<and> (is_aware st \<and> is_aware en \<longrightarrow>
            (\<exists>cs. detect_conflicts_at ev d st en sids u excl = Inr cs))"
proof (intro conjI allI impI)
  fix cs assume r: "detect_conflicts_at ev d st en sids u excl = Inr cs"
  let ?s = "instant ev st" and ?e = "instant ev en"
  let ?P = "\<lambda>c. cf_type c = Availability_limit \<and> cf_severity c = Critical \<and>
                 cf_service_id c = Some sid"
  note cs = detect_conflicts_at_Inr[OF r]
  have a: "\<not> list_ex ?P (concat (map (\<lambda>i. service_conflicts_listed ev d i ?s ?e u excl) sids))"
    using service_conflicts_tagged[of _ ev d _ ?s ?e u excl] by (auto simp add: list_ex_iff)
  have b: "\<not> list_ex ?P (detect_business_hours_conflicts d st en u)"
    using business_conflicts_tagged[of _ d st en u] by (auto simp add: list_ex_iff)
  have own: "list_ex ?P (unique_item_conflicts ev d sid st en u excl)
             = (overlapping_active d sid ?s ?e excl \<noteq> [])"
    using sv un
    by (simp add: unique_item_conflicts_def Let_def booking_rows_nonempty
        overlapping_bookings_active[OF ts, unfolded overlapping_bookings_def])
  have other: "\<not> list_ex ?P (unique_item_conflicts ev d i st en u excl)" if "i \<noteq> sid" for i
    using unique_conflicts_tagged[of _ ev d i st en u excl] that by (auto simp add: list_ex_iff)
  have c: "list_ex ?P (detect_availability_conflicts ev d sids st en u excl)
           = (overlapping_active d sid ?s ?e excl \<noteq> [])"
  proof -
    have "list_ex ?P (detect_availability_conflicts ev d sids st en u excl)
          = (\<exists>i \<in> set sids. list_ex ?P (unique_item_conflicts ev d i st en u excl))"
      by (auto simp add: detect_availability_conflicts_def list_ex_iff)
    also have "\<dots> = list_ex ?P (unique_item_conflicts ev d sid st en u excl)"
    proof
      assume "\<exists>i \<in> set sids. list_ex ?P (unique_item_conflicts ev d i st en u excl)"
      then obtain i where i: "list_ex ?P (unique_item_conflicts ev d i st en u excl)" by blast
      then have "i = sid" using other[of i] by (cases "i = sid") simp_all
      then show "list_ex ?P (unique_item_conflicts ev d sid st en u excl)" using i by simp
    next
      assume "list_ex ?P (unique_item_conflicts ev d sid st en u excl)"
      then show "\<exists>i \<in> set sids. list_ex ?P (unique_item_conflicts ev d i st en u excl)"
        using sid by (rule_tac x = sid in bexI)
    qed
    finally show ?thesis using own by simp
  qed
  show "list_ex ?P cs = (overlapping_active d sid ?s ?e excl \<noteq> [])"
    unfolding cs using a b c by (simp add: conflicts_listed_def)
  show "list_all (\<lambda>c. cf_type c \<noteq> Availability_limit \<or> cf_severity c = Critical) cs"
    unfolding cs
    using service_conflicts_tagged[of _ ev d _ ?s ?e u excl] business_conflicts_tagged[of _ d st en u]
      unique_conflicts_tagged[of _ ev d _ st en u excl]
    by (auto simp add: list_all_iff conflicts_listed_def detect_availability_conflicts_def)
next
  assume "is_aware st \<and> is_aware en"
  then show "\<exists>cs. detect_conflicts_at ev d st en sids u excl = Inr cs"
    by (simp add: detect_conflicts_at_aware)
qed

text \<open>
  The tent, quantity 1, holds two overlapping active bookings in \<open>overbooked\<close>: a request
  from 11:00 to 13:00, in aware datetimes, gets one conflict for each of them; with a
  naive start the detection raises.
\<close>

theorem service_overlap_conflicts_witness:
  "schema_ok overbooked \<and> tenant_scoped overbooked 1 7 \<and>
   get_service overbooked 1 7 = Some tent \<and> distinct [1::nat] \<and> (1::nat) \<in> set [1] \<and>
   is_aware (Aware 39600000000 0) \<and> is_aware (Aware 46800000000 0) \<and>
   reserved_quantity overbooked 1 (instant quiet_env (Aware 39600000000 0))
     (instant quiet_env (Aware 46800000000 0)) None = 2 \<and>
   (\<exists>cs. detect_conflicts_at quiet_env overbooked (Aware 39600000000 0) (Aware 46800000000 0)
            [1] 7 None = Inr cs \<and>
      mset (map cf_conflicting
        (filter (\<lambda>c. cf_type c = Service_overlap \<and> cf_service_id c = Some 1) cs))
        = {#[1], [2]#} \<and>
      list_all (\<lambda>c. cf_severity c = High)
        (filter (\<lambda>c. cf_type c = Service_overlap \<and> cf_service_id c = Some 1) cs)) \<and>
   \<not> is_aware (Naive 39600000000) \<and>
   detect_conflicts_at quiet_env overbooked (Naive 39600000000) (Aware 46800000000 0)
     [1] 7 None = Inl TypeError"
proof -
  let ?st = "Aware 39600000000 0" and ?en = "Aware 46800000000 0"
  let ?P = "\<lambda>c. cf_type c = Service_overlap \<and> cf_service_id c = Some (1::nat)"
  have h1: "schema_ok overbooked" by code_simp
  have h2: "tenant_scoped overbooked 1 7" by code_simp
  have h3: "get_service overbooked 1 7 = Some tent" by code_simp
  have h4: "distinct [1::nat]" by simp
  have h5: "(1::nat) \<in> set [1]" by simp
  have a1: "is_aware ?st" and a2: "is_aware ?en" by (simp_all add: is_aware_def)
  have q: "reserved_quantity overbooked 1 (instant quiet_env ?st) (instant quiet_env ?en) None = 2"
    by code_simp
  have p: "availability_type tent \<noteq> Unlimited \<and>
           reserved_quantity overbooked 1 (instant quiet_env ?st) (instant quiet_env ?en) None + 1
             > quantity_available tent"
    by code_simp
  have v: "map (\<lambda>b. [b_id b])
             (overlapping_active overbooked 1 (instant quiet_env ?st) (instant quiet_env ?en) None)
           = [[1], [2]]"
    by code_simp
  note t = service_overlap_conflicts[OF h1 h2 h3 h4 h5, of quiet_env ?st ?en None]
  from t[THEN conjunct2, THEN conjunct1] a1 a2 obtain cs where
    r: "detect_conflicts_at quiet_env overbooked ?st ?en [1] 7 None = Inr cs" by blast
  note c = t[THEN conjunct1, rule_format, OF r]
  from c have "mset (map cf_conflicting (filter ?P cs))
     = (if availability_type tent \<noteq> Unlimited \<and>
           reserved_quantity overbooked 1 (instant quiet_env ?st) (instant quiet_env ?en) None + 1
             > quantity_available tent
        then mset (map (\<lambda>b. [b_id b])
               (overlapping_active overbooked 1 (instant quiet_env ?st) (instant quiet_env ?en) None))
        else {#})"
    by (rule conjunct1)
  also have "\<dots> = mset (map (\<lambda>b. [b_id b])
               (overlapping_active overbooked 1 (instant quiet_env ?st) (instant quiet_env ?en) None))"
    by (rule if_P[OF p])
  also have "\<dots> = mset [[1], [2]]" by (rule arg_cong[OF v])
  finally have c1: "mset (map cf_conflicting (filter ?P cs)) = {#[1], [2]#}" by simp
  from c have c2: "list_all (\<lambda>c. cf_severity c = High) (filter ?P cs)" by (rule conjunct2)
  from r c1 c2 have ex: "\<exists>cs. detect_conflicts_at quiet_env overbooked ?st ?en [1] 7 None = Inr cs \<and>
      mset (map cf_conflicting (filter ?P cs)) = {#[1], [2]#} \<and>
      list_all (\<lambda>c. cf_severity c = High) (filter ?P cs)"
    by blast
  have n: "\<not> is_aware (Naive 39600000000)" by (simp add: is_aware_def)
  have hyp: "\<not> (is_aware (Naive 39600000000) \<and> is_aware ?en) \<and>
     availability_type tent \<noteq> Unlimited \<and>
     reserved_quantity overbooked 1 (instant quiet_env (Naive 39600000000))
       (instant quiet_env ?en) None + 1 > quantity_available tent \<and>
     overlapping_active overbooked 1 (instant quiet_env (Naive 39600000000))
       (instant quiet_env ?en) None \<noteq> []"
    by code_simp
  have e: "detect_conflicts_at quiet_env overbooked (Naive 39600000000) ?en [1] 7 None
           = Inl TypeError"
    by (rule service_overlap_conflicts[OF h1 h2 h3 h4 h5, of quiet_env "Naive 39600000000" ?en None,
          THEN conjunct2, THEN conjunct2, rule_format, OF hyp])
  from h1 h2 h3 h4 h5 a1 a2 q ex n e show ?thesis by (intro conjI)
qed

text \<open>
  Claim C5 as stated fails: the stage is \<open>unique\<close>, not \<open>limited\<close>, and a request that
  overlaps its one booking gets a \<open>service_overlap\<close> conflict all the same, before the
  \<open>availability_limit\<close> conflict.
\<close>

theorem service_overlap_for_unique_item:
  "availability_type stage = Unique \<and>
   get_service stage_booked 2 7 = Some stage \<and>
   detect_conflicts_at quiet_env stage_booked (Aware 39600000000 0) (Aware 46800000000 0)
     [2] 7 None
   = Inr [\<lparr>cf_type = Service_overlap, cf_severity = High, cf_service_id = Some 2,
           cf_conflicting = [1]\<rparr>,
          \<lparr>cf_type = Availability_limit, cf_severity = Critical, cf_service_id = Some 2,
           cf_conflicting = [1]\<rparr>]"
  by code_simp

text \<open>
  The stage is booked from 10:00 to 12:00; the window from 11:00 to 13:00 overlaps it and
  gets the critical conflict, the window from 12:00 to 13:00 touches it and gets none.
\<close>

theorem unique_item_conflict_witness:
  "tenant_scoped stage_booked 2 7 \<and> get_service stage_booked 2 7 = Some stage \<and>
   availability_type stage = Unique \<and> (2::nat) \<in> set [2] \<and>
   is_aware (Aware 39600000000 0) \<and> is_aware (Aware 43200000000 0) \<and>
   is_aware (Aware 46800000000 0) \<and>
   detect_conflicts_at quiet_env stage_booked (Aware 39600000000 0) (Aware 46800000000 0)
     [2] 7 None
   = Inr [\<lparr>cf_type = Service_overlap, cf_severity = High, cf_service_id = Some 2,
           cf_conflicting = [1]\<rparr>,
          \<lparr>cf_type = Availability_limit, cf_severity = Critical, cf_service_id = Some 2,
           cf_conflicting = [1]\<rparr>] \<and>
   overlapping_active stage_booked 2 (instant quiet_env (Aware 39600000000 0))
     (instant quiet_env (Aware 46800000000 0)) None \<noteq> [] \<and>
   detect_conflicts_at quiet_env stage_booked (Aware 43200000000 0) (Aware 46800000000 0)
     [2] 7 None = Inr [] \<and>
   overlapping_active stage_booked 2 (instant quiet_env (Aware 43200000000 0))
     (instant quiet_env (Aware 46800000000 0)) None = []"
proof -
  let ?P = "\<lambda>c. cf_type c = Availability_limit \<and> cf_severity c = Critical \<and>
                 cf_service_id c = Some (2::nat)"
  let ?cs = "[\<lparr>cf_type = Service_overlap, cf_severity = High, cf_service_id = Some 2,
           cf_conflicting = [1]\<rparr>,
          \<lparr>cf_type = Availability_limit, cf_severity = Critical, cf_service_id = Some (2::nat),
           cf_conflicting = [1]\<rparr>]"
  have h1: "tenant_scoped stage_booked 2 7" by code_simp
  have h2: "get_service stage_booked 2 7 = Some stage" by code_simp
  have h3: "availability_type stage = Unique" by code_simp
  have h4: "(2::nat) \<in> set [2]" by simp
  have a: "is_aware (Aware 39600000000 0)" "is_aware (Aware 43200000000 0)"
    "is_aware (Aware 46800000000 0)" by (simp_all add: is_aware_def)
  have r1: "detect_conflicts_at quiet_env stage_booked (Aware 39600000000 0)
              (Aware 46800000000 0) [2] 7 None = Inr ?cs"
    by code_simp
  have r2: "detect_conflicts_at quiet_env stage_booked (Aware 43200000000 0)
              (Aware 46800000000 0) [2] 7 None = Inr []"
    by code_simp
  have e1: "list_ex ?P ?cs
     = (overlapping_active stage_booked 2 (instant quiet_env (Aware 39600000000 0))
          (instant quiet_env (Aware 46800000000 0)) None \<noteq> [])"
    using unique_item_conflict[OF h1 h2 h3 h4, of quiet_env "Aware 39600000000 0"
        "Aware 46800000000 0" None, THEN conjunct1, rule_format, OF r1]
    by (rule conjunct1)
  have "list_ex ?P ?cs" by simp
  with e1 have c1: "overlapping_active stage_booked 2 (instant quiet_env (Aware 39600000000 0))
          (instant quiet_env (Aware 46800000000 0)) None \<noteq> []"
    by (rule iffD1)
  have e2: "list_ex ?P ([] :: conflict list)
     = (overlapping_active stage_booked 2 (instant quiet_env (Aware 43200000000 0))
          (instant quiet_env (Aware 46800000000 0)) None \<noteq> [])"
    using unique_item_conflict[OF h1 h2 h3 h4, of quiet_env "Aware 43200000000 0"
        "Aware 46800000000 0" None, THEN conjunct1, rule_format, OF r2]
    by (rule conjunct1)
  then have c2: "overlapping_active stage_booked 2 (instant quiet_env (Aware 43200000000 0))
          (instant quiet_env (Aware 46800000000 0)) None = []"
    by simp
  from h1 h2 h3 h4 a r1 c1 r2 c2 show ?thesis by (intro conjI)
qed

text \<open>
  Claim C6 as stated fails across tenants. The stage of tenant 7 is \<open>unique\<close> and booked
  from 10:00 to 12:00. Tenant 8 requests it from 11:00 to 13:00: an active booking
  overlaps the window, and detect_conflicts emits nothing, since it looks the service up
  among the requesting tenant's services only.
\<close>

theorem unique_item_of_other_tenant:
  "availability_type stage = Unique \<and> s_id stage = 2 \<and> stage \<in> set (service_objects stage_booked) \<and>
   map (\<lambda>b. (b_id b, status b, start_time b, end_time b))
     (overlapping_active stage_booked 2 (instant quiet_env (Aware 39600000000 0))
        (instant quiet_env (Aware 46800000000 0)) None)
     = [(1, Confirmed, 36000000000, 43200000000)] \<and>
   detect_conflicts_at quiet_env stage_booked (Aware 39600000000 0) (Aware 46800000000 0)
     [2] 8 None = Inr []"
  by code_simp

section \<open>Properties of the availability checks\<close>

lemma find_by_id:
  "distinct (map key xs) \<Longrightarrow>
   (case find (\<lambda>x. key x = k) xs of None \<Rightarrow> False | Some x \<Rightarrow> Q x)
   = list_ex (\<lambda>x. key x = k \<and> Q x) xs"
proof (induction xs)
  case Nil
  then show ?case by simp
next
  case (Cons x xs)
  show ?case
  proof (cases "key x = k")
    case True
    then have "k \<notin> key ` set xs" using Cons.prems by auto
    then have "\<not> list_ex (\<lambda>x. key x = k \<and> Q x) xs" by (auto simp add: list_ex_iff)
    then show ?thesis using True by simp
  next
    case False
    then show ?thesis using Cons by simp
  qed
qed

lemma booked_quantity_reserved:
  assumes ok: "schema_ok d"
  shows "booked_quantity d sid s e = reserved_quantity d sid s e None"
proof -
  have dist: "distinct (map b_id (booking_objects d))" using ok by (simp add: schema_ok_def)
  have "(case find (\<lambda>b. b_id b = bs_booking l) (booking_objects d) of
           None \<Rightarrow> False | Some b \<Rightarrow> overlaps b s e \<and> active_status (status b))
        = counts_toward d None s e l" for l
    unfolding find_by_id[OF dist] counts_toward_def
    by (auto simp add: list_ex_iff not_excluded_def)
  then show ?thesis by (simp add: booked_quantity_def reserved_quantity_def)
qed

lemma get_service_id: "get_service d sid u = Some sv \<Longrightarrow> s_id sv = sid \<and> s_user_id sv = u"
  by (auto simp add: get_service_def find_Some_iff)

lemma check_availability_entry:
  assumes sv: "get_service d sid u = Some sv" and act: "s_is_active sv"
    and r: "(sid, r) \<in> set (check_availability ev d sids st en u)"
  shows "r = avs_check_service_availability ev d sv st en u"
proof -
  have "find (\<lambda>x. (s_id x = sid \<and> s_user_id x = u) \<and> s_is_active x) (service_objects d) = Some sv"
    using sv act unfolding get_service_def by (rule find_stronger)
  then have "find (\<lambda>x. s_id x = sid \<and> s_user_id x = u \<and> s_is_active x) (service_objects d) = Some sv"
    by (simp add: conj_assoc)
  then show ?thesis using r by (auto simp add: check_availability_def)
qed

text \<open>
  Claim C3, as amended. For an active service of the tenant with \<open>limited\<close> or \<open>unique\<close>
  policy and every window, under the schema's constraints and tenant scoping:
  check_availability reports \<open>quantity_used\<close> as the sum of the claimed quantities of the
  reservations of the service whose parent booking is confirmed, pending or in_progress
  and overlaps the window (\<open>existing.start < query.end\<close> and \<open>existing.end > query.start\<close>);
  \<open>quantity_available\<close> is total minus used, but never below zero; and \<open>available\<close> holds
  iff total minus used is positive. The check that takes a requested quantity
  (ServiceCatalogService.check_service_availability) reports total minus used as it is, and
  is available iff that is at least the requested quantity.
\<close>

theorem availability_accounting:
  assumes ok: "schema_ok d" and ts: "tenant_scoped d sid u"
    and sv: "get_service d sid u = Some sv" and act: "s_is_active sv"
    and pol: "availability_type sv = Limited \<or> availability_type sv = Unique"
    and r: "(sid, r) \<in> set (check_availability ev d sids st en u)"
  shows "av_quantity_used r = Some (reserved_quantity d sid (instant ev st) (instant ev en) None) \<and>
         av_quantity_available r =
           Some (Qty (max 0 (quantity_available sv - reserved_quantity d sid (instant ev st) (instant ev en) None))) \<and>
         av_available r = (quantity_available sv - reserved_quantity d sid (instant ev st) (instant ev en) None > 0) \<and>
         ca_available_quantity (catalog_check_service_availability ev d u sid st en requested) =
           Some (quantity_available sv - reserved_quantity d sid (instant ev st) (instant ev en) None) \<and>
         ca_available (catalog_check_service_availability ev d u sid st en requested) =
           (quantity_available sv - reserved_quantity d sid (instant ev st) (instant ev en) None \<ge> requested)"
proof -
  have id: "s_id sv = sid" using sv by (simp add: get_service_id)
  have nu: "availability_type sv \<noteq> Unlimited" using pol by auto
  have req: "r = avs_check_service_availability ev d sv st en u"
    using sv act r by (rule check_availability_entry)
  have u: "quantity_in_use ev d sid (instant ev st) (instant ev en) u = reserved_quantity d sid (instant ev st) (instant ev en) None"
    using ok ts by (rule quantity_in_use_reserved)
  have b: "booked_quantity d sid (instant ev st) (instant ev en) = reserved_quantity d sid (instant ev st) (instant ev en) None"
    using ok by (rule booked_quantity_reserved)
  have cal: "av_quantity_used r = Some (reserved_quantity d sid (instant ev st) (instant ev en) None) \<and>
         av_quantity_available r =
           Some (Qty (max 0 (quantity_available sv - reserved_quantity d sid (instant ev st) (instant ev en) None))) \<and>
         av_available r = (quantity_available sv - reserved_quantity d sid (instant ev st) (instant ev en) None > 0)"
    using act nu by (simp add: req avs_check_service_availability_def Let_def id u)
  have cat: "ca_available_quantity (catalog_check_service_availability ev d u sid st en requested) =
           Some (quantity_available sv - reserved_quantity d sid (instant ev st) (instant ev en) None) \<and>
         ca_available (catalog_check_service_availability ev d u sid st en requested) =
           (quantity_available sv - reserved_quantity d sid (instant ev st) (instant ev en) None \<ge> requested)"
    using sv act nu by (simp add: catalog_check_service_availability_def Let_def id b)
  from cal cat show ?thesis by simp
qed

text \<open>
  The tent before any booking, asked for 10:00 to 12:00 (the scenario of the
  specification): nothing is used, one is available.
\<close>

theorem availability_accounting_witness:
  "schema_ok (shop (4/5)) \<and> tenant_scoped (shop (4/5)) 1 7 \<and>
   get_service (shop (4/5)) 1 7 = Some tent \<and> s_is_active tent \<and>
   (availability_type tent = Limited \<or> availability_type tent = Unique) \<and>
   check_availability quiet_env (shop (4/5)) [1] (Aware 36000000000 0) (Aware 43200000000 0) 7 =
     [(1, \<lparr>av_available = True, av_reason = None, av_quantity_available = Some (Qty 1),
           av_quantity_total = Some (Qty 1), av_quantity_used = Some 0,
           av_conflicting_bookings = Some []\<rparr>)] \<and>
   reserved_quantity (shop (4/5)) 1 36000000000 43200000000 None = 0 \<and>
   ca_available (catalog_check_service_availability quiet_env (shop (4/5)) 7 1 (Aware 36000000000 0) (Aware 43200000000 0) 2)
     = (quantity_available tent - reserved_quantity (shop (4/5)) 1 36000000000 43200000000 None \<ge> 2) \<and>
   \<not> ca_available (catalog_check_service_availability quiet_env (shop (4/5)) 7 1 (Aware 36000000000 0) (Aware 43200000000 0) 2)"
proof -
  let ?r = "\<lparr>av_available = True, av_reason = None, av_quantity_available = Some (Qty 1),
           av_quantity_total = Some (Qty 1), av_quantity_used = Some 0,
           av_conflicting_bookings = Some []\<rparr>"
  have h1: "schema_ok (shop (4/5))" by code_simp
  have h2: "tenant_scoped (shop (4/5)) 1 7" by code_simp
  have h3: "get_service (shop (4/5)) 1 7 = Some tent" by code_simp
  have h4: "s_is_active tent" by code_simp
  have h5: "availability_type tent = Limited \<or> availability_type tent = Unique" by code_simp
  have c: "check_availability quiet_env (shop (4/5)) [1] (Aware 36000000000 0) (Aware 43200000000 0) 7 = [(1, ?r)]"
    by code_simp
  then have h6: "(1, ?r) \<in> set (check_availability quiet_env (shop (4/5)) [1] (Aware 36000000000 0) (Aware 43200000000 0) 7)"
    by simp
  have q: "reserved_quantity (shop (4/5)) 1 36000000000 43200000000 None = 0" by code_simp
  have i: "instant quiet_env (Aware 36000000000 0) = 36000000000"
    "instant quiet_env (Aware 43200000000 0) = 43200000000"
    by (simp_all add: instant_def)
  note t = availability_accounting[OF h1 h2 h3 h4 h5 h6, of 2, unfolded i]
  from t have c1: "ca_available (catalog_check_service_availability quiet_env (shop (4/5)) 7 1 (Aware 36000000000 0) (Aware 43200000000 0) 2)
     = (quantity_available tent - reserved_quantity (shop (4/5)) 1 36000000000 43200000000 None \<ge> 2)"
    by (elim conjE)
  have c2: "\<not> ca_available (catalog_check_service_availability quiet_env (shop (4/5)) 7 1 (Aware 36000000000 0) (Aware 43200000000 0) 2)"
    by code_simp
  from h1 h2 h3 h4 h5 c q c1 c2 show ?thesis by (intro conjI)
qed

text \<open>
  Claim C3 as stated fails where a service is over capacity: for the tent in \<open>overbooked\<close>
  the total is 1 and 2 are used, and the reported \<open>quantity_available\<close> is 0, not
  total minus used.
\<close>

theorem availability_not_total_minus_used:
  "availability_type tent = Limited \<and> s_is_active tent \<and>
   map (\<lambda>(i, r). (av_quantity_total r, av_quantity_used r, av_quantity_available r))
     (check_availability quiet_env overbooked [1] (Aware 39600000000 0) (Aware 46800000000 0) 7)
     = [(Some (Qty 1), Some 2, Some (Qty 0))] \<and>
   Qty 0 \<noteq> Qty (1 - 2)"
  by code_simp

text \<open>
  Claim C10, as amended. For an active service of the tenant with \<open>limited\<close> or \<open>unique\<close>
  policy, all of whose bookings belong to that tenant, under the schema's constraints
  (booking ids are keys, at most one reservation per booking and service), and every
  window, the \<open>quantity_available\<close> that check_availability reports is never negative:
  when the reserved quantity of the overlapping active reservations meets or exceeds the
  total, the result has \<open>available\<close> false and \<open>quantity_available\<close> 0, while
  \<open>quantity_used\<close> is the full reserved quantity, whether or not it exceeds the total.
\<close>

theorem availability_never_negative:
  assumes ok: "schema_ok d" and ts: "tenant_scoped d sid u"
    and sv: "get_service d sid u = Some sv" and act: "s_is_active sv"
    and pol: "availability_type sv = Limited \<or> availability_type sv = Unique"
    and r: "(sid, r) \<in> set (check_availability ev d sids st en u)"
  shows "(\<exists>n. av_quantity_available r = Some (Qty n) \<and> 0 \<le> n) \<and>
         av_quantity_used r = Some (reserved_quantity d sid (instant ev st) (instant ev en) None) \<and>
         (quantity_available sv \<le> reserved_quantity d sid (instant ev st) (instant ev en) None \<longrightarrow>
            \<not> av_available r \<and> av_quantity_available r = Some (Qty 0))"
proof -
  have id: "s_id sv = sid" using sv by (simp add: get_service_id)
  have nu: "availability_type sv \<noteq> Unlimited" using pol by auto
  have req: "r = avs_check_service_availability ev d sv st en u"
    using sv act r by (rule check_availability_entry)
  have u: "quantity_in_use ev d sid (instant ev st) (instant ev en) u = reserved_quantity d sid (instant ev st) (instant ev en) None"
    using ok ts by (rule quantity_in_use_reserved)
  show ?thesis
    using act nu by (simp add: req avs_check_service_availability_def Let_def id u)
qed

text \<open>The tent in \<open>overbooked\<close>: total 1, used 2, reported available quantity 0.\<close>

theorem availability_never_negative_witness:
  "schema_ok overbooked \<and> tenant_scoped overbooked 1 7 \<and>
   get_service overbooked 1 7 = Some tent \<and> s_is_active tent \<and>
   (availability_type tent = Limited \<or> availability_type tent = Unique) \<and>
   check_availability quiet_env overbooked [1] (Aware 39600000000 0) (Aware 46800000000 0) 7 =
     [(1, \<lparr>av_available = False, av_reason = None, av_quantity_available = Some (Qty 0),
           av_quantity_total = Some (Qty 1), av_quantity_used = Some 2,
           av_conflicting_bookings = Some [1, 2]\<rparr>)] \<and>
   quantity_available tent \<le> reserved_quantity overbooked 1 39600000000 46800000000 None \<and>
   Some (2::int) = Some (reserved_quantity overbooked 1 39600000000 46800000000 None)"
proof -
  let ?r = "\<lparr>av_available = False, av_reason = None, av_quantity_available = Some (Qty 0),
           av_quantity_total = Some (Qty 1), av_quantity_used = Some 2,
           av_conflicting_bookings = Some [1, 2]\<rparr>"
  have h1: "schema_ok overbooked" by code_simp
  have h2: "tenant_scoped overbooked 1 7" by code_simp
  have h3: "get_service overbooked 1 7 = Some tent" by code_simp
  have h4: "s_is_active tent" by code_simp
  have h5: "availability_type tent = Limited \<or> availability_type tent = Unique" by code_simp
  have c: "check_availability quiet_env overbooked [1] (Aware 39600000000 0) (Aware 46800000000 0) 7 = [(1, ?r)]"
    by code_simp
  then have h6: "(1, ?r) \<in> set (check_availability quiet_env overbooked [1] (Aware 39600000000 0) (Aware 46800000000 0) 7)"
    by simp
  have q: "quantity_available tent \<le> reserved_quantity overbooked 1 39600000000 46800000000 None"
    by code_simp
  have i: "instant quiet_env (Aware 39600000000 0) = 39600000000"
    "instant quiet_env (Aware 46800000000 0) = 46800000000"
    by (simp_all add: instant_def)
  note t = availability_never_negative[OF h1 h2 h3 h4 h5 h6, unfolded i]
  from t have c1: "Some (2::int) = Some (reserved_quantity overbooked 1 39600000000 46800000000 None)"
    by simp
  from h1 h2 h3 h4 h5 c q c1 show ?thesis by (intro conjI)
qed

text \<open>
  Claim C10 as stated fails for a service that is not active. With the tent of
  \<open>overbooked\<close> deactivated, its two overlapping active reservations exceed the total
  quantity 1, and check_availability answers that the service was not found or is
  inactive: the result has neither \<open>quantity_available\<close> nor \<open>quantity_used\<close>.
\<close>

theorem inactive_service_reports_no_quantity:
  "availability_type (tent\<lparr>s_is_active := False\<rparr>) = Limited \<and>
   quantity_available (tent\<lparr>s_is_active := False\<rparr>) = 1 \<and>
   reserved_quantity (overbooked\<lparr>service_objects := [tent\<lparr>s_is_active := False\<rparr>]\<rparr>)
     1 39600000000 46800000000 None = 2 \<and>
   check_availability quiet_env (overbooked\<lparr>service_objects := [tent\<lparr>s_is_active := False\<rparr>]\<rparr>) [1] (Aware 39600000000 0) (Aware 46800000000 0) 7 =
     [(1, \<lparr>av_available = False, av_reason = Some ''Service not found or inactive'',
           av_quantity_available = None, av_quantity_total = None, av_quantity_used = None,
           av_conflicting_bookings = None\<rparr>)]"
  by code_simp

section \<open>Properties of create_booking_from_ai\<close>

lemma booking_price_admission:
  "booking_price sv h = Inr p \<Longrightarrow> p = admission_price sv h"
  by (auto simp add: booking_price_def admission_price_def max_def split: if_splits)

lemma duration_hours_Inr: "duration_hours s e = Inr h \<Longrightarrow> h = hours_between s e \<and> comparable s e"
  by (auto simp add: duration_hours_def comparable_def split: if_splits)

lemma dt_ge_False: "dt_ge s e = Inr False \<Longrightarrow> comparable s e \<and> dt_key s < dt_key e"
  by (auto simp add: dt_ge_def split: if_splits)



lemma create_booking_services_success:
  "create_booking_services s e bid svs d acc = Inr (t, d') \<Longrightarrow>
   d' = d\<lparr>booking_service_objects :=
            booking_service_objects d @ map (reservation_line bid (hours_between s e)) svs\<rparr> \<and>
   t = acc + sum_list (map (\<lambda>x. admission_price x (hours_between s e)) svs)"
proof (induction svs arbitrary: d acc)
  case Nil
  then show ?case by simp
next
  case (Cons sv svs)
  from Cons.prems obtain h where h: "duration_hours s e = Inr h"
    by (cases "duration_hours s e") auto
  then have hb: "h = hours_between s e" by (simp add: duration_hours_Inr)
  from Cons.prems h obtain p where p: "booking_price sv h = Inr p"
    by (cases "booking_price sv h") auto
  then have pa: "p = admission_price sv (hours_between s e)"
    using booking_price_admission[of sv h p] hb by simp
  let ?d2 = "d\<lparr>booking_service_objects := booking_service_objects d @
               [\<lparr>bs_booking = bid, bs_service = s_id sv, quantity = 1,
                 price_per_unit = p, total_price = p\<rparr>]\<rparr>"
  from Cons.prems h p have rec: "create_booking_services s e bid svs ?d2 (acc + p) = Inr (t, d')"
    by (simp split: if_splits)
  from Cons.IH[OF rec] show ?case by (simp add: pa reservation_line_def)
qed

lemma resolve_service_frame:
  "service_objects d1 = service_objects d \<Longrightarrow>
   resolve_service ev d1 u sd = resolve_service ev d u sd"
  by (auto simp add: resolve_service_def split: option.splits)

lemma validate_services_frame:
  "service_objects d1 = service_objects d \<Longrightarrow>
   validate_services ev d1 u sds = validate_services ev d u sds"
proof -
  assume "service_objects d1 = service_objects d"
  then have "resolve_service ev d1 u = resolve_service ev d u"
    by (intro ext) (rule resolve_service_frame)
  then show ?thesis by (simp add: validate_services_def)
qed

lemma customer_frame:
  "get_or_create_customer d u cd = Inr (cid, d1) \<Longrightarrow>
   service_objects d1 = service_objects d \<and> booking_objects d1 = booking_objects d \<and>
   booking_service_objects d1 = booking_service_objects d \<and>
   calendar_settings_objects d1 = calendar_settings_objects d \<and>
   conflict_log_objects d1 = conflict_log_objects d"
  by (auto simp add: get_or_create_customer_def Let_def split: list.splits if_splits)

lemma detect_conflicts_datetimes:
  "detect_conflicts ev d (DT s) (DT e) sids u excl = detect_conflicts_at ev d s e sids u excl"
  by (simp add: detect_conflicts_def dt_truthy_def to_datetime_def)

lemma admit_success:
  assumes "admit ev d1 u title cid svs s e conf = Inr (Success cr, d')"
  shows "booking_service_objects d' =
           booking_service_objects d1 @ map (reservation_line (cr_booking_id cr) (hours_between s e)) svs \<and>
         cr_total_price cr = sum_list (map (\<lambda>x. admission_price x (hours_between s e)) svs) \<and>
         cr_booking_id cr = fresh_id (map b_id (booking_objects d1)) \<and>
         detect_conflicts_at ev d1 s e (map s_id svs) u None = Inr (cr_conflicts cr) \<and>
         cr_auto_confirmed cr = auto_confirm_decision d1 u conf (cr_conflicts cr) \<and>
         cr_status cr = (if cr_auto_confirmed cr then Confirmed else Pending)"
proof -
  let ?bid = "fresh_id (map b_id (booking_objects d1))"
  from assms obtain cs where dc: "detect_conflicts_at ev d1 s e (map s_id svs) u None = Inr cs"
    by (cases "detect_conflicts_at ev d1 s e (map s_id svs) u None")
       (auto simp add: admit_def detect_conflicts_datetimes)
  let ?ac = "auto_confirm_decision d1 u conf cs"
  let ?d2 = "d1\<lparr>booking_objects := booking_objects d1 @
                       [\<lparr>b_id = ?bid, b_user_id = u, b_customer = cid, b_title = title,
                         start_time = instant ev s, end_time = instant ev e,
                         status = (if ?ac then Confirmed else Pending),
                         ai_confidence_score = conf\<rparr>]\<rparr>"
  from assms dc obtain t d3 where
    cbs: "create_booking_services s e ?bid svs ?d2 0 = Inr (t, d3)"
    by (cases "create_booking_services s e ?bid svs ?d2 0")
       (auto simp add: admit_def detect_conflicts_datetimes Let_def split: if_splits)
  from assms dc cbs have res:
    "cr = \<lparr>cr_booking_id = ?bid, cr_status = (if ?ac then Confirmed else Pending),
           cr_conflicts = cs, cr_auto_confirmed = ?ac, cr_total_price = t\<rparr>"
    "d' = d3\<lparr>conflict_log_objects := conflict_log_objects d3 @ map (conflict_log_of u ?bid) cs\<rparr>"
    by (auto simp add: admit_def detect_conflicts_datetimes Let_def split: if_splits)
  from create_booking_services_success[OF cbs] res dc show ?thesis by simp
qed

lemma required_fields_Inr:
  "required_fields bd = Inr (title, sv, evl, cd, sds) \<Longrightarrow>
   bd_title bd = Some title \<and> bd_start_time bd = Some sv \<and> bd_end_time bd = Some evl \<and>
   bd_customer bd = Some cd \<and> bd_services bd = Some sds"
  by (auto simp add: required_fields_def split: option.splits)

lemma create_booking_try_of_result:
  "create_booking_from_ai ev d u bd conf = (Success cr, d') \<Longrightarrow>
   create_booking_try ev d u bd conf = Inr (Success cr, d')"
  by (cases "create_booking_try ev d u bd conf")
     (auto simp add: create_booking_from_ai_def create_booking_body_def split: if_splits)

text \<open>The \<^verbatim>\<open>try\<close> block once the fields are there and the customer is resolved.\<close>

lemma create_booking_try_validated:
  assumes rf: "required_fields bd = Inr (title, sv, evl, cd, sds)"
    and cu: "get_or_create_customer d u cd = Inr (cid, d1)"
  shows "create_booking_try ev d u bd conf =
      (if validate_services ev d1 u sds = [] then Inr (Field_error ''services'', d1)
       else case parse_datetime (fromisoformat ev) (now_at_start ev) sv of
              Inl x \<Rightarrow> Inl (x, d1)
            | Inr s \<Rightarrow>
                (case parse_datetime (fromisoformat ev) (now_at_end ev) evl of
                   Inl x \<Rightarrow> Inl (x, d1)
                 | Inr e \<Rightarrow>
                     (case dt_ge s e of
                        Inl x \<Rightarrow> Inl (x, d1)
                      | Inr not_before \<Rightarrow>
                          if not_before then Inr (Field_error ''end_time'', d1)
                          else admit ev d1 u title cid (validate_services ev d1 u sds) s e conf)))"
  by (simp add: create_booking_try_def rf cu Let_def)

lemma create_booking_success:
  assumes res: "create_booking_from_ai ev d u bd conf = (Success cr, d')"
  obtains title sv evl cd sds cid d1 s e where
    "required_fields bd = Inr (title, sv, evl, cd, sds)"
    "get_or_create_customer d u cd = Inr (cid, d1)"
    "parse_datetime (fromisoformat ev) (now_at_start ev) sv = Inr s"
    "parse_datetime (fromisoformat ev) (now_at_end ev) evl = Inr e"
    "dt_ge s e = Inr False"
    "validate_services ev d1 u sds \<noteq> []"
    "admit ev d1 u title cid (validate_services ev d1 u sds) s e conf = Inr (Success cr, d')"
proof -
  have tr: "create_booking_try ev d u bd conf = Inr (Success cr, d')"
    using res by (rule create_booking_try_of_result)
  show ?thesis
  proof (cases "required_fields bd")
    case (Inl f)
    with tr show ?thesis by (simp add: create_booking_try_def)
  next
    case (Inr flds)
    obtain title sv evl cd sds where flds: "flds = (title, sv, evl, cd, sds)"
      by (cases flds) auto
    note rf = Inr[unfolded flds]
    show ?thesis
    proof (cases "get_or_create_customer d u cd")
      case (Inl x)
      with tr rf show ?thesis by (simp add: create_booking_try_def)
    next
      case (Inr cres)
      obtain cid d1 where cres: "cres = (cid, d1)" by (cases cres) auto
      note cu = Inr[unfolded cres]
      let ?svs = "validate_services ev d1 u sds"
      note a1 = create_booking_try_validated[OF rf cu, of ev conf]
      have ne: "?svs \<noteq> []"
      proof
        assume "?svs = []"
        with a1 tr show False by simp
      qed
      show ?thesis
      proof (cases "parse_datetime (fromisoformat ev) (now_at_start ev) sv")
        case (Inl x)
        with tr a1 ne show ?thesis by simp
      next
        case ps: (Inr s)
        show ?thesis
        proof (cases "parse_datetime (fromisoformat ev) (now_at_end ev) evl")
          case (Inl x)
          with tr a1 ne ps show ?thesis by simp
        next
          case pe: (Inr e)
          have a2: "create_booking_try ev d u bd conf =
                (case dt_ge s e of
                   Inl x \<Rightarrow> Inl (x, d1)
                 | Inr not_before \<Rightarrow>
                     if not_before then Inr (Field_error ''end_time'', d1)
                     else admit ev d1 u title cid ?svs s e conf)"
            using a1 ne ps pe by simp
          show ?thesis
          proof (cases "dt_ge s e")
            case (Inl x)
            with a2 tr show ?thesis by simp
          next
            case (Inr nb)
            have nbf: "\<not> nb"
            proof
              assume nb
              with a2 tr Inr show False by simp
            qed
            then have ge: "dt_ge s e = Inr False" using Inr by simp
            have ad: "admit ev d1 u title cid ?svs s e conf = Inr (Success cr, d')"
              using a2 tr ge by simp
            show ?thesis by (rule that[OF rf cu ps pe ge ne ad])
          qed
        qed
      qed
    qed
  qed
qed

text \<open>
  Claim C7, as amended. For every admitted booking, one reservation is persisted for each
  resolved service, in order, with quantity 1 and the unit price given by the rule written
  in create_booking_from_ai, applied to the booking's duration in hours: the hourly rate
  times the hours if an hourly rate is set, else the daily rate times the days (at least
  one) if a daily rate is set, else the base price. The booking's total price is the sum
  of these over the resolved services. (get_price_for_duration is not consulted.)
\<close>

theorem admission_prices:
  assumes "create_booking_from_ai ev d u bd conf = (Success cr, d')"
  shows "\<exists>s e. requested_window ev bd = Some (s, e) \<and> comparable s e \<and> dt_key s < dt_key e \<and>
           booking_service_objects d' =
             booking_service_objects d @
             map (reservation_line (cr_booking_id cr) (hours_between s e))
               (requested_services ev d u bd) \<and>
           cr_total_price cr =
             sum_list (map (\<lambda>sv. admission_price sv (hours_between s e))
               (requested_services ev d u bd))"
proof -
  from assms obtain title sv evl cd sds cid d1 s e where
    rf: "required_fields bd = Inr (title, sv, evl, cd, sds)" and
    cu: "get_or_create_customer d u cd = Inr (cid, d1)" and
    ps: "parse_datetime (fromisoformat ev) (now_at_start ev) sv = Inr s" and
    pe: "parse_datetime (fromisoformat ev) (now_at_end ev) evl = Inr e" and
    se: "dt_ge s e = Inr False" and
    ne: "validate_services ev d1 u sds \<noteq> []" and
    ad: "admit ev d1 u title cid (validate_services ev d1 u sds) s e conf = Inr (Success cr, d')"
    by (rule create_booking_success)
  note f = required_fields_Inr[OF rf] and fr = customer_frame[OF cu]
  note o = dt_ge_False[OF se]
  have "validate_services ev d1 u sds = validate_services ev d u sds"
    using fr by (intro validate_services_frame) simp
  then have vs: "validate_services ev d1 u sds = requested_services ev d u bd"
    using f by (simp add: requested_services_def)
  have w: "requested_window ev bd = Some (s, e)"
    using f ps pe by (simp add: requested_window_def)
  note a = admit_success[OF ad, unfolded vs]
  have l: "booking_service_objects d' =
             booking_service_objects d @
             map (reservation_line (cr_booking_id cr) (hours_between s e))
               (requested_services ev d u bd)"
    using a fr by simp
  have p: "cr_total_price cr =
             sum_list (map (\<lambda>sv. admission_price sv (hours_between s e))
               (requested_services ev d u bd))"
    using a by simp
  from w o l p show ?thesis by (intro exI conjI) simp_all
qed

text \<open>
  The tent and the stage requested together for two hours: both are base-priced,
  the lines cost 30 and 100 and the booking 130.
\<close>

theorem admission_prices_witness:
  "create_booking_from_ai quiet_env (shop (4/5)) 7 (request (utc 36000000000) [1, 2]) None
     = (Success \<lparr>cr_booking_id = 1, cr_status = Pending, cr_conflicts = [],
                 cr_auto_confirmed = False, cr_total_price = 130\<rparr>,
        snd (create_booking_from_ai quiet_env (shop (4/5)) 7 (request (utc 36000000000) [1, 2]) None)) \<and>
   (\<exists>s e. requested_window quiet_env (request (utc 36000000000) [1, 2]) = Some (s, e) \<and> comparable s e \<and> dt_key s < dt_key e \<and>
      booking_service_objects
        (snd (create_booking_from_ai quiet_env (shop (4/5)) 7 (request (utc 36000000000) [1, 2]) None))
      = booking_service_objects (shop (4/5)) @
        map (reservation_line 1 (hours_between s e))
          (requested_services quiet_env (shop (4/5)) 7 (request (utc 36000000000) [1, 2])) \<and>
      (130::rat) = sum_list (map (\<lambda>sv. admission_price sv (hours_between s e))
          (requested_services quiet_env (shop (4/5)) 7 (request (utc 36000000000) [1, 2])))) \<and>
   requested_services quiet_env (shop (4/5)) 7 (request (utc 36000000000) [1, 2]) = [tent, stage] \<and>
   map price_per_unit (booking_service_objects
        (snd (create_booking_from_ai quiet_env (shop (4/5)) 7 (request (utc 36000000000) [1, 2]) None)))
     = [30, 100]"
proof -
  let ?res = "create_booking_from_ai quiet_env (shop (4/5)) 7 (request (utc 36000000000) [1, 2]) None"
  let ?cr = "\<lparr>cr_booking_id = 1, cr_status = Pending, cr_conflicts = [],
                 cr_auto_confirmed = False, cr_total_price = 130\<rparr>"
  have f: "fst ?res = Success ?cr" by code_simp
  have h: "?res = (Success ?cr, snd ?res)"
    using f by (simp add: prod_eq_iff)
  have a: "requested_services quiet_env (shop (4/5)) 7 (request (utc 36000000000) [1, 2]) = [tent, stage]"
    by code_simp
  have b: "map price_per_unit (booking_service_objects (snd ?res)) = [30, 100]"
    by code_simp
  from admission_prices[OF h] have c: "\<exists>s e. requested_window quiet_env (request (utc 36000000000) [1, 2]) = Some (s, e) \<and> comparable s e \<and> dt_key s < dt_key e \<and>
      booking_service_objects (snd ?res)
      = booking_service_objects (shop (4/5)) @
        map (reservation_line 1 (hours_between s e))
          (requested_services quiet_env (shop (4/5)) 7 (request (utc 36000000000) [1, 2])) \<and>
      (130::rat) = sum_list (map (\<lambda>sv. admission_price sv (hours_between s e))
          (requested_services quiet_env (shop (4/5)) 7 (request (utc 36000000000) [1, 2])))"
    by simp
  from h c a b show ?thesis by (intro conjI)
qed

text \<open>
  Claim C7 as stated fails: the tent has a weekly rate of 200 and a base price of 30. A
  booking of two hours is admitted with the unit price 30 persisted, while
  get_price_for_duration gives 200 for two hours (the float 2.0, as the duration is
  computed).
\<close>

theorem admission_price_not_tiered:
  "fst (create_booking_from_ai quiet_env (shop (4/5)) 7 (request (utc 36000000000) [1]) None)
     = Success \<lparr>cr_booking_id = 1, cr_status = Pending, cr_conflicts = [],
                cr_auto_confirmed = False, cr_total_price = 30\<rparr> \<and>
   booking_service_objects
     (snd (create_booking_from_ai quiet_env (shop (4/5)) 7 (request (utc 36000000000) [1]) None))
     = [\<lparr>bs_booking = 1, bs_service = 1, quantity = 1, price_per_unit = 30, total_price = 30\<rparr>] \<and>
   requested_services quiet_env (shop (4/5)) 7 (request (utc 36000000000) [1]) = [tent] \<and>
   hours_between (Aware 36000000000 0) (Aware 43200000000 0) = 2 \<and>
   get_price_for_duration tent (PyFloat 2) = Inr 200"
  by code_simp

text \<open>
  Claim C2 fails on the code. The handler returns every failure as a value, so the
  decorated method returns normally and the transaction commits what was written before
  the failure. A request that resolves to no service is answered with the field error on
  \<open>services\<close>, and the customer created before the check stays in the database; so it
  does when the end time is not after the start time. A request for the mixer, which has
  an hourly rate, fails with the TypeError of the price computation after the booking
  row was written, and the booking stays, without any line.
\<close>

theorem failed_admission_keeps_writes:
  "create_booking_from_ai quiet_env (shop (4/5)) 7 (request (utc 36000000000) []) None
     = (Field_error ''services'',
        (shop (4/5))\<lparr>customer_objects :=
           [\<lparr>c_id = 1, c_user_id = 7, c_email = ''ann@example.org''\<rparr>]\<rparr>) \<and>
   customer_objects (shop (4/5)) = [] \<and>
   create_booking_from_ai quiet_env (shop (4/5)) 7 (request (utc 43200000000) [1]) None
     = (Field_error ''end_time'',
        (shop (4/5))\<lparr>customer_objects :=
           [\<lparr>c_id = 1, c_user_id = 7, c_email = ''ann@example.org''\<rparr>]\<rparr>) \<and>
   create_booking_from_ai quiet_env (shop (4/5)) 7 (request (utc 36000000000) [3]) None
     = (Failure TypeError,
        (shop (4/5))\<lparr>customer_objects :=
           [\<lparr>c_id = 1, c_user_id = 7, c_email = ''ann@example.org''\<rparr>],
          booking_objects :=
           [\<lparr>b_id = 1, b_user_id = 7, b_customer = 1, b_title = ''party'',
             start_time = 36000000000, end_time = 43200000000, status = Pending,
             ai_confidence_score = None\<rparr>]\<rparr>)"
  by code_simp

text \<open>
  Claim C4 fails on the code at a confidence of zero. The tenant's settings enable
  auto-confirmation with threshold 0; a request is admitted with the supplied confidence
  0, which is at least the threshold, and with no conflict at all, and the booking is
  \<open>pending\<close>. With the confidence 1/100 the same request is \<open>confirmed\<close>.
\<close>

theorem zero_confidence_stays_pending:
  "get_settings (shop 0) 7 =
     Some \<lparr>cs_user_id = 7, business_hours_start = 0, business_hours_end = 86400000000,
           ai_booking_auto_confirm = True, ai_confidence_threshold = 0\<rparr> \<and>
   (0::rat) \<ge> 0 \<and>
   fst (create_booking_from_ai quiet_env (shop 0) 7 (request (utc 36000000000) [1]) (Some 0))
     = Success \<lparr>cr_booking_id = 1, cr_status = Pending, cr_conflicts = [],
                cr_auto_confirmed = False, cr_total_price = 30\<rparr> \<and>
   map status (booking_objects
     (snd (create_booking_from_ai quiet_env (shop 0) 7 (request (utc 36000000000) [1]) (Some 0))))
     = [Pending] \<and>
   fst (create_booking_from_ai quiet_env (shop 0) 7 (request (utc 36000000000) [1]) (Some (1/100)))
     = Success \<lparr>cr_booking_id = 1, cr_status = Confirmed, cr_conflicts = [],
                cr_auto_confirmed = True, cr_total_price = 30\<rparr>"
  by code_simp















end
